theory Spec2Isabelle
  imports Main "HOL-Library.Word"
begin

section \<open>The frontend driver: data model\<close>

text \<open>
  A shallow embedding of \<^verbatim>\<open>lib/Frontend/Frontend.cpp\<close>: the two member functions
  \<^verbatim>\<open>CompilerInstance::setup\<close> and \<^verbatim>\<open>CompilerInstance::doIt\<close>. The members of the
  instance that the two functions read or write form one record, every mutation returns
  the updated record, and every way of leaving a function (a \<^verbatim>\<open>return\<close>, a failed
  \<^verbatim>\<open>assert\<close>) is a constructor of the result.
\<close>

datatype SourceKind = Library | Main | REPL | SIL

text \<open>
  An \<^verbatim>\<open>llvm::MemoryBuffer\<close>: its bytes and its identifier. Buffers live in a heap
  (a list; the address of a buffer is its index, an allocation appends), so that a
  pointer to a buffer of the caller and a pointer to a copy are different values.
\<close>

record memory_buffer =
  getBuffer :: string
  getBufferIdentifier :: string

text \<open>The arguments \<^verbatim>\<open>setup\<close> passes to the Clang importer's constructor.\<close>

record importer_args =
  argSDKPath :: string
  argTargetTriple :: string
  argRuntimeIncludePath :: string
  argModuleCachePath :: string
  argImportSearchPaths :: "string list"
  argFrameworkSearchPaths :: "string list"
  argOverrideResourceDir :: string
  argExtraArgs :: "string list"

text \<open>
  The module loaders \<^verbatim>\<open>setup\<close> creates. \<^verbatim>\<open>SourceLoader::create\<close> takes a flag
  (\<^verbatim>\<open>!Invocation.isImmediate()\<close>); a Clang importer is whatever handle its constructor
  returned.
\<close>

datatype module_loader =
    SourceLoader bool
  | SerializedModuleLoader
  | ClangImporter nat

text \<open>The diagnostics \<^verbatim>\<open>setup\<close> emits, with their arguments.\<close>

datatype diagnostic =
    error_clang_importer_not_linked_in
  | error_clang_importer_create_fail
  | error_open_input_file string string

text \<open>
  \<^verbatim>\<open>CompilerInvocation\<close>, through the getters the two functions call. The buffers of
  \<^verbatim>\<open>getInputBuffers\<close> and of \<^verbatim>\<open>getCodeCompletionPoint\<close> are pointers into the heap:
  the invocation does not own them.
\<close>

record invocation =
  getImportSearchPaths :: "string list"
  getFrameworkSearchPaths :: "string list"
  isImmediate :: bool
  getSDKPath :: string
  getTargetTriple :: string
  getRuntimeIncludePath :: string
  getClangModuleCachePath :: string
  getExtraClangArgs :: "string list"
  getModuleName :: string
  getInputKind :: SourceKind
  getCodeCompletionPoint :: "nat option \<times> nat"
  getInputFilenames :: "string list"
  getInputBuffers :: "nat list"
  getParseStdlib :: bool
  getParseOnly :: bool
  isCodeCompletion :: bool
  isDelayedFunctionBodyParsing :: bool

text \<open>
  The AST: a translation unit holds pointers to its source files, a source file holds its
  declarations. Both are allocated in the context (placement \<^verbatim>\<open>new\<close>): the context
  keeps one arena of each, a pointer is an index, an allocation appends.
\<close>

record translation_unit =
  Name :: string
  Files :: "nat list"

record 'd source_file =
  Parent :: nat
  Kind :: SourceKind
  isParseStdlib :: bool
  Decls :: "'d list"

record 'd ast_context =
  ImportSearchPaths :: "string list"
  ModuleLoaders :: "module_loader list"
  LoadedModules :: "string \<rightharpoonup> nat"
  TranslationUnits :: "translation_unit list"
  SourceFiles :: "'d source_file list"

text \<open>
  The source manager: the buffers it owns (the id of a buffer is its index in the list,
  as \<^verbatim>\<open>llvm::SourceMgr::AddNewSourceBuffer\<close> returned \<^verbatim>\<open>Buffers.size() - 1\<close> when
  this file was written), the code-completion point and the hashbang buffer.
\<close>

record source_manager =
  Buffers :: "nat list"
  CodeCompletionPoint :: "(nat \<times> nat) option"
  HashbangBufferID :: "nat option"

text \<open>The two kinds of \<^verbatim>\<open>DelayedParsingCallbacks\<close> that \<^verbatim>\<open>doIt\<close> creates.\<close>

datatype delayed_callbacks =
    CodeCompleteDelayedCallbacks "(nat \<times> nat) option"
  | AlwaysDelayedCallbacks

text \<open>
  The calls \<^verbatim>\<open>doIt\<close> makes to the parser and to the type checker are logged, in order:
  \<^item> \<open>ParseCall b sil ds done\<close>: \<^verbatim>\<open>parseIntoTranslationUnit\<close> on buffer \<open>b\<close>, with a SIL
    parser state or without, which appended the declarations \<open>ds\<close> and set \<^verbatim>\<open>Done\<close>
    to \<open>done\<close>;
  \<^item> \<open>TypeCheckCall start n\<close>: \<^verbatim>\<open>performTypeChecking(SF, StartElem)\<close> with \<open>start\<close>
    the value of the \<^verbatim>\<open>unsigned\<close> argument, called when the file had \<open>n\<close>
    declarations, so that it checks the declarations \<open>start, ..., n - 1\<close>;
  \<^item> \<open>DelayedParsingCall\<close>: \<^verbatim>\<open>performDelayedParsing\<close>.
\<close>

datatype 'd call =
    ParseCall nat bool "'d list" bool
  | TypeCheckCall nat nat
  | DelayedParsingCall

text \<open>
  The compiler instance. \<open>Heap\<close> is the memory in which every \<^verbatim>\<open>llvm::MemoryBuffer\<close>
  lives, the caller's and the instance's; \<open>Calls\<close> is the log of calls above. The
  context is a plain record: \<^verbatim>\<open>setup\<close> replaces it by a new one, and \<^verbatim>\<open>doIt\<close> is
  modelled for an instance whose \<^verbatim>\<open>setup\<close> has run.
\<close>

record 'd compiler_instance =
  Invocation :: invocation
  SourceMgr :: source_manager
  Diagnostics :: "diagnostic list"
  Context :: "'d ast_context"
  SML :: "module_loader option"
  TheSILModule :: bool
  BufferIDs :: "nat list"
  TU :: "nat option"
  Heap :: "memory_buffer list"
  Calls :: "'d call list"

text \<open>
  How a function ends: it returns (with its result), it stops at a failed \<^verbatim>\<open>assert\<close>
  or at a pointer of the invocation that points to no buffer (where the source has
  undefined behaviour), or the model's fuel for the pump loop is used up. Assertions are
  modelled as enabled.
\<close>

datatype fault = AssertionFailed string | InvalidPointer

datatype ('r, 's) outcome =
    Returned 'r 's
  | Aborted fault 's
  | OutOfFuel 's

fun state_of :: "('r, 's) outcome \<Rightarrow> 's" where
  "state_of (Returned r s) = s"
| "state_of (Aborted f s) = s"
| "state_of (OutOfFuel s) = s"

section \<open>The collaborators of \<^verbatim>\<open>setup\<close>\<close>

text \<open>
  What \<^verbatim>\<open>setup\<close> calls outside this file is a parameter:
  \<^item> \<open>getFileOrSTDIN\<close>: the file system, giving for a path the message of the error or
    the buffer read;
  \<^item> \<open>getClangImporterCtor\<close>: the constructor of the Clang importer when it is linked in;
    the constructor returns no importer when it fails;
  \<^item> \<open>isIdentifier\<close>: \<^verbatim>\<open>Lexer::isIdentifier\<close>.
\<close>

record env =
  getFileOrSTDIN :: "string \<Rightarrow> string + memory_buffer"
  getClangImporterCtor :: "(importer_args \<Rightarrow> nat option) option"
  isIdentifier :: "string \<Rightarrow> bool"

definition new_ASTContext :: "'d ast_context" where
  "new_ASTContext =
     \<lparr>ImportSearchPaths = [], ModuleLoaders = [], LoadedModules = Map.empty,
      TranslationUnits = [], SourceFiles = []\<rparr>"

definition addModuleLoader :: "module_loader \<Rightarrow> 'd compiler_instance \<Rightarrow> 'd compiler_instance" where
  "addModuleLoader l s =
     s\<lparr>Context := (Context s)\<lparr>ModuleLoaders := ModuleLoaders (Context s) @ [l]\<rparr>\<rparr>"

definition diagnose :: "diagnostic \<Rightarrow> 'd compiler_instance \<Rightarrow> 'd compiler_instance" where
  "diagnose d s = s\<lparr>Diagnostics := Diagnostics s @ [d]\<rparr>"

text \<open>
  \<^verbatim>\<open>llvm::MemoryBuffer::getMemBufferCopy(data, name)\<close> allocates a new buffer holding
  a copy of the bytes; an allocation returns the new address.
\<close>

definition allocBuffer :: "memory_buffer \<Rightarrow> 'd compiler_instance \<Rightarrow> nat \<times> 'd compiler_instance" where
  "allocBuffer b s = (length (Heap s), s\<lparr>Heap := Heap s @ [b]\<rparr>)"

definition getMemBufferCopy :: "string \<Rightarrow> string \<Rightarrow> 'd compiler_instance \<Rightarrow> nat \<times> 'd compiler_instance" where
  "getMemBufferCopy bytes name s = allocBuffer \<lparr>getBuffer = bytes, getBufferIdentifier = name\<rparr> s"

text \<open>\<^verbatim>\<open>SourceMgr->AddNewSourceBuffer(p, SMLoc())\<close>: the manager takes the buffer at \<open>p\<close>
  and returns its id.\<close>

definition AddNewSourceBuffer :: "nat \<Rightarrow> 'd compiler_instance \<Rightarrow> nat \<times> 'd compiler_instance" where
  "AddNewSourceBuffer p s =
     (length (Buffers (SourceMgr s)),
      s\<lparr>SourceMgr := (SourceMgr s)\<lparr>Buffers := Buffers (SourceMgr s) @ [p]\<rparr>\<rparr>)"

definition setCodeCompletionPoint :: "nat \<Rightarrow> nat \<Rightarrow> 'd compiler_instance \<Rightarrow> 'd compiler_instance" where
  "setCodeCompletionPoint b off s =
     s\<lparr>SourceMgr := (SourceMgr s)\<lparr>CodeCompletionPoint := Some (b, off)\<rparr>\<rparr>"

definition push_BufferID :: "nat \<Rightarrow> 'd compiler_instance \<Rightarrow> 'd compiler_instance" where
  "push_BufferID b s = s\<lparr>BufferIDs := BufferIDs s @ [b]\<rparr>"

definition createSILModule :: "'d compiler_instance \<Rightarrow> 'd compiler_instance" where
  "createSILModule s = s\<lparr>TheSILModule := True\<rparr>"

section \<open>\<^verbatim>\<open>CompilerInstance::setup\<close>\<close>

text \<open>
  Copying a buffer of the caller and registering the copy (lines 84-90 and 111-114):
  the copy is a new buffer, the source manager gets the copy's address, the id goes to
  \<^verbatim>\<open>BufferIDs\<close>. The result is the id; there is none when the caller's pointer points to
  no buffer.
\<close>

definition registerCopy :: "nat \<Rightarrow> 'd compiler_instance \<Rightarrow> (nat \<times> 'd compiler_instance) option" where
  "registerCopy MemBuf s =
     (if MemBuf < length (Heap s) then
        (let (p, s1) = getMemBufferCopy (getBuffer (Heap s ! MemBuf))
                         (getBufferIdentifier (Heap s ! MemBuf)) s;
             (BufferID, s2) = AddNewSourceBuffer p s1
         in Some (BufferID, push_BufferID BufferID s2))
      else None)"

text \<open>Lines 50-71: the Clang importer. \<open>Inl\<close> is the early \<^verbatim>\<open>return true\<close>.\<close>

definition importerArgs :: "invocation \<Rightarrow> importer_args" where
  "importerArgs Invok =
     \<lparr>argSDKPath = getSDKPath Invok,
      argTargetTriple = getTargetTriple Invok,
      argRuntimeIncludePath = getRuntimeIncludePath Invok,
      argModuleCachePath = getClangModuleCachePath Invok,
      argImportSearchPaths = getImportSearchPaths Invok,
      argFrameworkSearchPaths = getFrameworkSearchPaths Invok,
      argOverrideResourceDir = [],
      argExtraArgs = getExtraClangArgs Invok\<rparr>"

definition wireClangImporter ::
  "env \<Rightarrow> 'd compiler_instance \<Rightarrow> 'd compiler_instance + 'd compiler_instance" where
  "wireClangImporter E s =
     (if getSDKPath (Invocation s) \<noteq> [] then
        (case getClangImporterCtor E of
           None \<Rightarrow> Inl (diagnose error_clang_importer_not_linked_in s)
         | Some ImporterCtor \<Rightarrow>
             (case ImporterCtor (importerArgs (Invocation s)) of
                None \<Rightarrow> Inl (diagnose error_clang_importer_create_fail s)
              | Some clangImporter \<Rightarrow> Inr (addModuleLoader (ClangImporter clangImporter) s)))
      else Inr s)"

text \<open>Lines 81-93: the code-completion buffer. \<open>None\<close> is an invalid pointer.\<close>

definition addCodeCompletionBuffer :: "'d compiler_instance \<Rightarrow> 'd compiler_instance option" where
  "addCodeCompletionBuffer s =
     (case getCodeCompletionPoint (Invocation s) of
        (None, off) \<Rightarrow> Some s
      | (Some MemBuf, off) \<Rightarrow>
          (case registerCopy MemBuf s of
             None \<Rightarrow> None
           | Some (CodeCompletionBufferID, s1) \<Rightarrow>
               Some (setCodeCompletionPoint CodeCompletionBufferID off s1)))"

text \<open>Lines 95-107: the input files. \<open>Inl\<close> is the early \<^verbatim>\<open>return true\<close>.\<close>

fun openInputFiles ::
  "env \<Rightarrow> string list \<Rightarrow> 'd compiler_instance \<Rightarrow> 'd compiler_instance + 'd compiler_instance" where
  "openInputFiles E [] s = Inr s"
| "openInputFiles E (File # rest) s =
     (case getFileOrSTDIN E File of
        Inl Err \<Rightarrow> Inl (diagnose (error_open_input_file File Err) s)
      | Inr InputFile \<Rightarrow>
          (let (p, s1) = allocBuffer InputFile s;
               (BufferID, s2) = AddNewSourceBuffer p s1
           in openInputFiles E rest (push_BufferID BufferID s2)))"

text \<open>Lines 109-115: the in-memory buffers. \<open>Inl\<close> is an invalid pointer.\<close>

fun copyInputBuffers :: "nat list \<Rightarrow> 'd compiler_instance \<Rightarrow> 'd compiler_instance + 'd compiler_instance" where
  "copyInputBuffers [] s = Inr s"
| "copyInputBuffers (Buf # rest) s =
     (case registerCopy Buf s of
        None \<Rightarrow> Inl s
      | Some (BufferID, s1) \<Rightarrow> copyInputBuffers rest s1)"

text \<open>Lines 37-46: the invocation, the new context, the two loaders that are always there.\<close>

definition setupContext :: "invocation \<Rightarrow> 'd compiler_instance \<Rightarrow> 'd compiler_instance" where
  "setupContext Invok s0 =
     (let s1 = s0\<lparr>Invocation := Invok\<rparr>;
          s2 = s1\<lparr>Context := new_ASTContext\<rparr>;
          s3 = s2\<lparr>Context := (Context s2)\<lparr>ImportSearchPaths := getImportSearchPaths (Invocation s2)\<rparr>\<rparr>;
          s4 = addModuleLoader (SourceLoader (\<not> isImmediate (Invocation s3))) s3;
          s5 = s4\<lparr>SML := Some SerializedModuleLoader\<rparr>
      in addModuleLoader SerializedModuleLoader s5)"

text \<open>Line 74: the runtime include path.\<close>

definition addRuntimeIncludePath :: "'d compiler_instance \<Rightarrow> 'd compiler_instance" where
  "addRuntimeIncludePath s =
     s\<lparr>Context := (Context s)\<lparr>ImportSearchPaths :=
          ImportSearchPaths (Context s) @ [getRuntimeIncludePath (Invocation s)]\<rparr>\<rparr>"

text \<open>
  Lines 81-117: the inputs, first the code-completion buffer, then the files, then the
  buffers in memory.
\<close>

definition acquireInputs :: "env \<Rightarrow> 'd compiler_instance \<Rightarrow> (bool, 'd compiler_instance) outcome" where
  "acquireInputs E s =
     (case addCodeCompletionBuffer s of
        None \<Rightarrow> Aborted InvalidPointer s
      | Some s1 \<Rightarrow>
          (case openInputFiles E (getInputFilenames (Invocation s1)) s1 of
             Inl s2 \<Rightarrow> Returned True s2
           | Inr s2 \<Rightarrow>
               (case copyInputBuffers (getInputBuffers (Invocation s2)) s2 of
                  Inl s3 \<Rightarrow> Aborted InvalidPointer s3
                | Inr s3 \<Rightarrow> Returned False s3)))"

text \<open>
  \<^verbatim>\<open>setup\<close> itself, under the name \<open>setup_instance\<close> (\<open>setup\<close> is a keyword of
  Isabelle). The result \<open>True\<close> is the source's \<^verbatim>\<open>return true\<close>, an error.
\<close>

definition setup_instance :: "env \<Rightarrow> invocation \<Rightarrow> 'd compiler_instance \<Rightarrow> (bool, 'd compiler_instance) outcome" where
  "setup_instance E Invok s0 =
     (case wireClangImporter E (setupContext Invok s0) of
        Inl s1 \<Rightarrow> Returned True s1
      | Inr s1 \<Rightarrow>
          (let s2 = addRuntimeIncludePath s1
           in if \<not> isIdentifier E (getModuleName (Invocation s2))
              then Aborted (AssertionFailed ''Lexer::isIdentifier(Invocation.getModuleName())'') s2
              else acquireInputs E
                     (if getInputKind (Invocation s2) = SIL then createSILModule s2 else s2)))"

section \<open>The collaborators of \<^verbatim>\<open>doIt\<close>\<close>

text \<open>
  Modelled from the spec: \<^verbatim>\<open>parseIntoTranslationUnit\<close>, \<^verbatim>\<open>performTypeChecking\<close> and
  \<^verbatim>\<open>performDelayedParsing\<close> are declared in \<^verbatim>\<open>swift/Subsystems.h\<close> and defined in
  other libraries. A call of the parser yields a batch of zero or more newly parsed
  top-level declarations, which it appends to the source file, and the \<^verbatim>\<open>Done\<close> flag;
  it reads and updates the persistent parser state (and the SIL parser state, here part
  of the same value \<open>'ps\<close>). What it yields is a parameter: \<open>parse P\<close> gets the source
  file, the buffer id, whether a SIL parser state is passed, the delayed-parsing
  callbacks and the state. The type checker and the delayed parsing change neither the
  declaration list nor anything else of this model: their calls are logged.
  \<^verbatim>\<open>performTypeChecking\<close> has the default argument \<^verbatim>\<open>StartElem = 0\<close>; the
  argument is an \<^verbatim>\<open>unsigned\<close>, a word of 32 bits.
\<close>

record ('d, 'ps) parser =
  initialState :: 'ps
  parse :: "'d source_file \<Rightarrow> nat \<Rightarrow> bool \<Rightarrow> delayed_callbacks option \<Rightarrow> 'ps \<Rightarrow> 'd list \<times> bool \<times> 'ps"

definition declsOf :: "nat \<Rightarrow> 'd compiler_instance \<Rightarrow> 'd list" where
  "declsOf SF s = Decls (SourceFiles (Context s) ! SF)"

definition parseIntoTranslationUnit ::
  "('d, 'ps) parser \<Rightarrow> nat \<Rightarrow> nat \<Rightarrow> bool \<Rightarrow> 'ps \<Rightarrow> delayed_callbacks option \<Rightarrow>
   'd compiler_instance \<Rightarrow> bool \<times> 'ps \<times> 'd compiler_instance" where
  "parseIntoTranslationUnit P SF BufferID sil ps DelayedCB s =
     (let file = SourceFiles (Context s) ! SF;
          (ds, Done, ps') = parse P file BufferID sil DelayedCB ps
      in (Done, ps',
          s\<lparr>Context := (Context s)\<lparr>SourceFiles :=
               (SourceFiles (Context s))[SF := file\<lparr>Decls := Decls file @ ds\<rparr>]\<rparr>,
            Calls := Calls s @ [ParseCall BufferID sil ds Done]\<rparr>))"

definition performTypeChecking :: "nat \<Rightarrow> 32 word \<Rightarrow> 'd compiler_instance \<Rightarrow> 'd compiler_instance" where
  "performTypeChecking SF StartElem s =
     s\<lparr>Calls := Calls s @ [TypeCheckCall (unat StartElem) (length (declsOf SF s))]\<rparr>"

definition performDelayedParsing :: "'d compiler_instance \<Rightarrow> 'd compiler_instance" where
  "performDelayedParsing s = s\<lparr>Calls := Calls s @ [DelayedParsingCall]\<rparr>"

definition new_TranslationUnit :: "string \<Rightarrow> 'd compiler_instance \<Rightarrow> nat \<times> 'd compiler_instance" where
  "new_TranslationUnit ID s =
     (length (TranslationUnits (Context s)),
      s\<lparr>Context := (Context s)\<lparr>TranslationUnits :=
           TranslationUnits (Context s) @ [\<lparr>Name = ID, Files = []\<rparr>]\<rparr>\<rparr>)"

definition new_SourceFile ::
  "nat \<Rightarrow> SourceKind \<Rightarrow> bool \<Rightarrow> 'd compiler_instance \<Rightarrow> nat \<times> 'd compiler_instance" where
  "new_SourceFile tu K stdlib s =
     (length (SourceFiles (Context s)),
      s\<lparr>Context := (Context s)\<lparr>SourceFiles :=
           SourceFiles (Context s) @ [\<lparr>Parent = tu, Kind = K, isParseStdlib = stdlib, Decls = []\<rparr>]\<rparr>\<rparr>)"

definition addSourceFile :: "nat \<Rightarrow> nat \<Rightarrow> 'd compiler_instance \<Rightarrow> 'd compiler_instance" where
  "addSourceFile tu sf s =
     s\<lparr>Context := (Context s)\<lparr>TranslationUnits :=
          (TranslationUnits (Context s))
            [tu := (TranslationUnits (Context s) ! tu)
                     \<lparr>Files := Files (TranslationUnits (Context s) ! tu) @ [sf]\<rparr>]\<rparr>\<rparr>"

definition setHashbangBufferID :: "nat \<Rightarrow> 'd compiler_instance \<Rightarrow> 'd compiler_instance" where
  "setHashbangBufferID b s = s\<lparr>SourceMgr := (SourceMgr s)\<lparr>HashbangBufferID := Some b\<rparr>\<rparr>"

section \<open>\<^verbatim>\<open>CompilerInstance::doIt\<close>\<close>

text \<open>Lines 121-128: the translation unit, its registration, its one source file.\<close>

definition createTU :: "'d compiler_instance \<Rightarrow> nat \<times> 'd compiler_instance" where
  "createTU s =
     (let ID = getModuleName (Invocation s);
          (tu, s1) = new_TranslationUnit ID s;
          s2 = s1\<lparr>TU := Some tu\<rparr>;
          s3 = s2\<lparr>Context := (Context s2)\<lparr>LoadedModules := (LoadedModules (Context s2))(ID \<mapsto> tu)\<rparr>\<rparr>;
          (SingleInputFile, s4) =
             new_SourceFile tu (getInputKind (Invocation s3)) (getParseStdlib (Invocation s3)) s3
      in (SingleInputFile, addSourceFile tu SingleInputFile s4))"

text \<open>Lines 132-138: the delayed-parsing callbacks.\<close>

definition chooseDelayedCB :: "'d compiler_instance \<Rightarrow> delayed_callbacks option" where
  "chooseDelayedCB s =
     (if isCodeCompletion (Invocation s)
      then Some (CodeCompleteDelayedCallbacks (CodeCompletionPoint (SourceMgr s)))
      else if isDelayedFunctionBodyParsing (Invocation s) then Some AlwaysDelayedCallbacks
      else None)"

text \<open>
  Lines 144-150: the loop of the library mode. \<open>Inl\<close> is the failed assertion that the
  parser is done with a buffer.
\<close>

fun parseAll ::
  "('d, 'ps) parser \<Rightarrow> nat \<Rightarrow> delayed_callbacks option \<Rightarrow> nat list \<Rightarrow> 'ps \<Rightarrow> 'd compiler_instance \<Rightarrow>
   'd compiler_instance + 'ps \<times> 'd compiler_instance" where
  "parseAll P SF DelayedCB [] ps s = Inr (ps, s)"
| "parseAll P SF DelayedCB (BufferID # rest) ps s =
     (case parseIntoTranslationUnit P SF BufferID False ps DelayedCB s of
        (Done, ps', s1) \<Rightarrow>
          if \<not> Done then Inl s1 else parseAll P SF DelayedCB rest ps' s1)"

text \<open>
  Lines 180-185: the body of the pump loop, one iteration. It yields \<^verbatim>\<open>Done\<close>, the
  new value of \<^verbatim>\<open>CurTUElem\<close> and the parser state. \<^verbatim>\<open>CurTUElem\<close> is an
  \<^verbatim>\<open>unsigned\<close>, a word of 32 bits: the assignment of \<^verbatim>\<open>Decls.size()\<close> to it keeps the
  low 32 bits of the size (\<open>of_nat\<close>).
\<close>

definition pumpOnce ::
  "('d, 'ps) parser \<Rightarrow> nat \<Rightarrow> nat \<Rightarrow> delayed_callbacks option \<Rightarrow> 32 word \<Rightarrow> 'ps \<Rightarrow>
   'd compiler_instance \<Rightarrow> bool \<times> 32 word \<times> 'ps \<times> 'd compiler_instance" where
  "pumpOnce P SF BufferID DelayedCB CurTUElem ps s =
     (case parseIntoTranslationUnit P SF BufferID (TheSILModule s) ps DelayedCB s of
        (Done, ps', s1) \<Rightarrow>
          (let s2 = (if \<not> getParseOnly (Invocation s1)
                     then performTypeChecking SF CurTUElem s1 else s1)
           in (Done, of_nat (length (declsOf SF s2)), ps', s2)))"

text \<open>
  Lines 173-186: the pump, a \<^verbatim>\<open>do ... while (!Done)\<close> loop. The source's loop runs as
  long as the parser is not done; the model takes fuel, one unit for each iteration, and
  ends in \<open>OutOfFuel\<close> with the state reached when the fuel is used up. The result of a
  loop that ended is the final value of \<^verbatim>\<open>CurTUElem\<close>, with the parser state.
\<close>

fun pump ::
  "('d, 'ps) parser \<Rightarrow> nat \<Rightarrow> nat \<Rightarrow> nat \<Rightarrow> delayed_callbacks option \<Rightarrow> 32 word \<Rightarrow> 'ps \<Rightarrow>
   'd compiler_instance \<Rightarrow> (32 word \<times> 'ps, 'd compiler_instance) outcome" where
  "pump P 0 SF BufferID DelayedCB CurTUElem ps s = OutOfFuel s"
| "pump P (Suc fuel) SF BufferID DelayedCB CurTUElem ps s =
     (case pumpOnce P SF BufferID DelayedCB CurTUElem ps s of
        (Done, CurTUElem', ps', s1) \<Rightarrow>
          if Done then Returned (CurTUElem', ps') s1
          else pump P fuel SF BufferID DelayedCB CurTUElem' ps' s1)"

text \<open>\<^verbatim>\<open>doIt\<close> itself.\<close>

definition doIt ::
  "('d, 'ps) parser \<Rightarrow> nat \<Rightarrow> 'd compiler_instance \<Rightarrow> (unit, 'd compiler_instance) outcome" where
  "doIt P fuel s0 =
     (let Kind = getInputKind (Invocation s0);
          (SingleInputFile, s1) = createTU s0
      in if Kind = REPL then Returned () s1
         else
           (let DelayedCB = chooseDelayedCB s1;
                PersistentState = initialState P
            in if Kind = Library then
                 (case parseAll P SingleInputFile DelayedCB (BufferIDs s1) PersistentState s1 of
                    Inl s2 \<Rightarrow> Aborted (AssertionFailed ''Parser returned early?'') s2
                  | Inr (ps, s2) \<Rightarrow>
                      (let s3 = (if \<not> getParseOnly (Invocation s2)
                                 then performTypeChecking SingleInputFile 0 s2 else s2);
                           s4 = (if DelayedCB \<noteq> None then performDelayedParsing s3 else s3)
                       in Returned () s4))
               else if \<not> (Kind = Main \<or> Kind = SIL) then
                 Aborted (AssertionFailed ''Kind == SourceFile::Main || Kind == SourceFile::SIL'') s1
               else if length (BufferIDs s1) \<noteq> 1 then
                 Aborted (AssertionFailed ''This mode only allows one input'') s1
               else
                 (let BufferID = BufferIDs s1 ! 0;
                      s2 = (if Kind = Main then setHashbangBufferID BufferID s1 else s1)
                  in case pump P fuel SingleInputFile BufferID DelayedCB 0 PersistentState s2 of
                       Returned r s3 \<Rightarrow>
                         Returned () (if DelayedCB \<noteq> None then performDelayedParsing s3 else s3)
                     | Aborted f s3 \<Rightarrow> Aborted f s3
                     | OutOfFuel s3 \<Rightarrow> OutOfFuel s3)))"

text \<open>Lines 166-169: the state in which the pump loop starts.\<close>

definition beforePump :: "'d compiler_instance \<Rightarrow> 'd compiler_instance" where
  "beforePump s = (if getInputKind (Invocation s) = Main
     then setHashbangBufferID (BufferIDs s ! 0) (snd (createTU s)) else snd (createTU s))"

section \<open>Reading the log of calls\<close>

text \<open>The calls made between two states, and what they say.\<close>

definition newCalls :: "'d compiler_instance \<Rightarrow> 'd compiler_instance \<Rightarrow> 'd call list" where
  "newCalls s s' = drop (length (Calls s)) (Calls s')"

fun typeChecks :: "'d call list \<Rightarrow> (nat \<times> nat) list" where
  "typeChecks [] = []"
| "typeChecks (TypeCheckCall start n # cs) = (start, n) # typeChecks cs"
| "typeChecks (c # cs) = typeChecks cs"

fun parsedBuffers :: "'d call list \<Rightarrow> nat list" where
  "parsedBuffers [] = []"
| "parsedBuffers (ParseCall b sil ds d # cs) = b # parsedBuffers cs"
| "parsedBuffers (c # cs) = parsedBuffers cs"

fun parsedBatches :: "'d call list \<Rightarrow> 'd list list" where
  "parsedBatches [] = []"
| "parsedBatches (ParseCall b sil ds d # cs) = ds # parsedBatches cs"
| "parsedBatches (c # cs) = parsedBatches cs"

fun parsedDone :: "'d call list \<Rightarrow> bool list" where
  "parsedDone [] = []"
| "parsedDone (ParseCall b sil ds d # cs) = d # parsedDone cs"
| "parsedDone (c # cs) = parsedDone cs"



section \<open>Two parsers to run the model on\<close>

text \<open>
  A parser that follows a script, the list of the batches it yields call after call: it is
  done with the last batch of the script (and at once when the script is empty).
\<close>

definition scriptParser :: "'d list list \<Rightarrow> ('d, 'd list list) parser" where
  "scriptParser script =
     \<lparr>initialState = script,
      parse = (\<lambda>file BufferID sil DelayedCB ps.
         case ps of
           [] \<Rightarrow> ([], True, [])
         | [ds] \<Rightarrow> (ds, True, [])
         | ds # rest \<Rightarrow> (ds, False, rest))\<rparr>"

text \<open>A parser that reads each buffer to its end in one call: buffer \<open>b\<close> holds \<open>f b\<close>.\<close>

definition wholeBufferParser :: "(nat \<Rightarrow> 'd list) \<Rightarrow> ('d, unit) parser" where
  "wholeBufferParser f =
     \<lparr>initialState = (),
      parse = (\<lambda>file BufferID sil DelayedCB ps. (f BufferID, True, ps))\<rparr>"

section \<open>What the theorems speak of\<close>

text \<open>
  The importer that \<^verbatim>\<open>setup\<close> would get: the constructor is linked in and constructs
  one from the invocation's arguments.
\<close>

definition constructedImporter :: "env \<Rightarrow> invocation \<Rightarrow> nat option" where
  "constructedImporter E Invok =
     (case getClangImporterCtor E of
        None \<Rightarrow> None
      | Some ImporterCtor \<Rightarrow> ImporterCtor (importerArgs Invok))"

text \<open>
  The loaders do not stop \<^verbatim>\<open>setup\<close>: no SDK is asked for, or the importer is
  constructed.
\<close>

definition loadersReady :: "env \<Rightarrow> invocation \<Rightarrow> bool" where
  "loadersReady E Invok = (getSDKPath Invok = [] \<or> constructedImporter E Invok \<noteq> None)"

text \<open>The loader chain that \<^verbatim>\<open>setup\<close> builds.\<close>

definition loaderChain :: "env \<Rightarrow> invocation \<Rightarrow> module_loader list" where
  "loaderChain E Invok =
     [SourceLoader (\<not> isImmediate Invok), SerializedModuleLoader] @
     (if getSDKPath Invok \<noteq> [] then
        (case constructedImporter E Invok of None \<Rightarrow> [] | Some imp \<Rightarrow> [ClangImporter imp])
      else [])"



text \<open>
  Between \<open>s\<close> and \<open>s'\<close> exactly the buffers \<open>bs\<close> were ingested, in this order: each
  one allocated at a new address, handed to the source manager, and its id appended to
  \<^verbatim>\<open>BufferIDs\<close>.
\<close>

definition ingested :: "'d compiler_instance \<Rightarrow> 'd compiler_instance \<Rightarrow> memory_buffer list \<Rightarrow> bool" where
  "ingested s s' bs =
     (Heap s' = Heap s @ bs \<and>
      Buffers (SourceMgr s') =
        Buffers (SourceMgr s) @ [length (Heap s) ..< length (Heap s) + length bs] \<and>
      BufferIDs s' =
        BufferIDs s @ [length (Buffers (SourceMgr s)) ..< length (Buffers (SourceMgr s)) + length bs])"

text \<open>What the ingestion of buffers leaves alone.\<close>

definition untouched :: "'d compiler_instance \<Rightarrow> 'd compiler_instance \<Rightarrow> bool" where
  "untouched s s' =
     (Invocation s' = Invocation s \<and> Context s' = Context s \<and> Calls s' = Calls s \<and>
      TheSILModule s' = TheSILModule s \<and> TU s' = TU s)"

text \<open>What the parser and the type checker leave alone.\<close>

definition stepFrame :: "'d compiler_instance \<Rightarrow> 'd compiler_instance \<Rightarrow> bool" where
  "stepFrame s s' =
     (Invocation s' = Invocation s \<and> TheSILModule s' = TheSILModule s \<and>
      BufferIDs s' = BufferIDs s \<and> TU s' = TU s \<and> Heap s' = Heap s \<and>
      Diagnostics s' = Diagnostics s \<and>
      LoadedModules (Context s') = LoadedModules (Context s) \<and>
      TranslationUnits (Context s') = TranslationUnits (Context s) \<and>
      ModuleLoaders (Context s') = ModuleLoaders (Context s) \<and>
      length (SourceFiles (Context s')) = length (SourceFiles (Context s)))"

text \<open>The caller's buffers of an invocation, and the files that can be read.\<close>

definition completionBuffer :: "invocation \<Rightarrow> 'd compiler_instance \<Rightarrow> memory_buffer list" where
  "completionBuffer Invok s =
     (case fst (getCodeCompletionPoint Invok) of None \<Rightarrow> [] | Some MemBuf \<Rightarrow> [Heap s ! MemBuf])"

text \<open>The completion buffer of the invocation, if there is one, is a buffer of the heap.\<close>

definition completionBufferValid :: "invocation \<Rightarrow> 'd compiler_instance \<Rightarrow> bool" where
  "completionBufferValid Invok s =
     (case fst (getCodeCompletionPoint Invok) of
        None \<Rightarrow> True | Some MemBuf \<Rightarrow> MemBuf < length (Heap s))"


definition readable :: "env \<Rightarrow> string \<Rightarrow> bool" where
  "readable E File = (case getFileOrSTDIN E File of Inl Err \<Rightarrow> False | Inr InputFile \<Rightarrow> True)"

definition fileBuffers :: "env \<Rightarrow> string list \<Rightarrow> memory_buffer list" where
  "fileBuffers E paths =
     concat (map (\<lambda>File. case getFileOrSTDIN E File of Inl Err \<Rightarrow> [] | Inr InputFile \<Rightarrow> [InputFile]) paths)"


text \<open>The value that an \<^verbatim>\<open>unsigned\<close> holds after a size \<open>n\<close> is assigned to it.\<close>

definition wrap32 :: "nat \<Rightarrow> nat" where
  "wrap32 n = unat (of_nat n :: 32 word)"

text \<open>The declaration counts after each batch, from a count \<open>c\<close> on.\<close>

fun runningCounts :: "nat \<Rightarrow> 'd list list \<Rightarrow> nat list" where
  "runningCounts c [] = []"
| "runningCounts c (ds # r) = (c + length ds) # runningCounts (c + length ds) r"

fun returned :: "('r, 's) outcome \<Rightarrow> bool" where
  "returned (Returned r s) = True"
| "returned (Aborted f s) = False"
| "returned (OutOfFuel s) = False"


fun aborted :: "('r, 's) outcome \<Rightarrow> bool" where
  "aborted (Returned r s) = False"
| "aborted (Aborted f s) = True"
| "aborted (OutOfFuel s) = False"

section \<open>An environment, an invocation and an instance to run the model on\<close>

definition exampleEnv :: env where
  "exampleEnv =
     \<lparr>getFileOrSTDIN = (\<lambda>File.
        if File = ''missing.swift'' then Inl ''No such file or directory''
        else Inr \<lparr>getBuffer = ''var x = 1'', getBufferIdentifier = File\<rparr>),
      getClangImporterCtor = None,
      isIdentifier = (\<lambda>n. n \<noteq> [] \<and> CHR ''-'' \<notin> set n)\<rparr>"

definition exampleInvocation :: invocation where
  "exampleInvocation =
     \<lparr>getImportSearchPaths = [], getFrameworkSearchPaths = [], isImmediate = False,
      getSDKPath = [], getTargetTriple = ''x86_64-apple-darwin13'',
      getRuntimeIncludePath = ''/usr/lib/swift'', getClangModuleCachePath = [],
      getExtraClangArgs = [], getModuleName = ''main'', getInputKind = Main,
      getCodeCompletionPoint = (None, 0), getInputFilenames = [], getInputBuffers = [],
      getParseStdlib = False, getParseOnly = False, isCodeCompletion = False,
      isDelayedFunctionBodyParsing = False\<rparr>"

text \<open>A new instance, in a heap that holds the caller's buffers.\<close>

definition newInstance :: "memory_buffer list \<Rightarrow> 'd compiler_instance" where
  "newInstance heap =
     \<lparr>Invocation = exampleInvocation,
      SourceMgr = \<lparr>Buffers = [], CodeCompletionPoint = None, HashbangBufferID = None\<rparr>,
      Diagnostics = [], Context = new_ASTContext, SML = None, TheSILModule = False,
      BufferIDs = [], TU = None, Heap = heap, Calls = []\<rparr>"

text \<open>Two buffers of a caller, and invocations that use them.\<close>

definition twoBuffers :: "memory_buffer list" where
  "twoBuffers =
     [\<lparr>getBuffer = ''func f() {}'', getBufferIdentifier = ''a.swift''\<rparr>,
      \<lparr>getBuffer = ''f('', getBufferIdentifier = ''completion''\<rparr>]"


definition fiveFiles :: invocation where
  "fiveFiles =
     exampleInvocation\<lparr>getInputKind := Library,
       getInputFilenames := [''a.swift'', ''b.swift'', ''missing.swift'', ''d.swift'', ''e.swift'']\<rparr>"

definition sdkInvocation :: invocation where
  "sdkInvocation =
     exampleInvocation\<lparr>getSDKPath := ''/SDKs/MacOSX10.9.sdk'', getModuleName := ''not-a-name'',
       getInputFilenames := [''a.swift''], getInputBuffers := [0]\<rparr>"

text \<open>Invocations with an input file that cannot be read, one with an SDK path and one
  with a module name that is not an identifier.\<close>

definition sdkMissing :: invocation where
  "sdkMissing =
     exampleInvocation\<lparr>getSDKPath := ''/SDKs/MacOSX10.9.sdk'',
       getInputFilenames := [''missing.swift'']\<rparr>"

definition badNameMissing :: invocation where
  "badNameMissing =
     exampleInvocation\<lparr>getModuleName := ''not-a-name'',
       getInputFilenames := [''missing.swift'']\<rparr>"

text \<open>An invocation whose completion buffer is a pointer to no buffer (of a heap with
  fewer than six buffers), with an input file that cannot be read.\<close>

definition danglingCompletion :: invocation where
  "danglingCompletion =
     exampleInvocation\<lparr>getInputKind := Library, getCodeCompletionPoint := (Some 5, 0),
       getInputFilenames := [''missing.swift'']\<rparr>"





text \<open>An environment in which the Clang importer is linked in and constructs.\<close>

definition importerEnv :: env where
  "importerEnv = exampleEnv\<lparr>getClangImporterCtor := Some (\<lambda>args. Some 7)\<rparr>"

text \<open>Instances whose \<^verbatim>\<open>setup\<close> has registered one buffer, and three buffers.\<close>

definition mainInstance :: "nat compiler_instance" where
  "mainInstance =
     (newInstance [\<lparr>getBuffer = ''print(1)'', getBufferIdentifier = ''main.swift''\<rparr>])
       \<lparr>SourceMgr := \<lparr>Buffers = [0], CodeCompletionPoint = None, HashbangBufferID = None\<rparr>,
        BufferIDs := [0]\<rparr>"

definition libraryInstance :: "nat compiler_instance" where
  "libraryInstance =
     (newInstance
        [\<lparr>getBuffer = ''struct A {}'', getBufferIdentifier = ''a.swift''\<rparr>,
         \<lparr>getBuffer = ''struct B {}'', getBufferIdentifier = ''b.swift''\<rparr>,
         \<lparr>getBuffer = ''struct C {}'', getBufferIdentifier = ''c.swift''\<rparr>])
       \<lparr>Invocation := exampleInvocation\<lparr>getInputKind := Library\<rparr>,
        SourceMgr := \<lparr>Buffers = [0, 1, 2], CodeCompletionPoint = None, HashbangBufferID = None\<rparr>,
        BufferIDs := [0, 1, 2]\<rparr>"



definition libraryRun :: "(unit, nat compiler_instance) outcome" where
  "libraryRun = doIt (wholeBufferParser (\<lambda>b. [10 * b])) 0 libraryInstance"




definition parseOnlyInstance :: "nat compiler_instance" where
  "parseOnlyInstance = mainInstance\<lparr>Invocation := exampleInvocation\<lparr>getParseOnly := True\<rparr>\<rparr>"

definition parseOnlyRun :: "(unit, nat compiler_instance) outcome" where
  "parseOnlyRun = doIt (scriptParser [[1, 2], [3]]) 5 parseOnlyInstance"

text \<open>An instance in which a module of the same name is registered already, and one with
  two buffers for a main file.\<close>

definition reusedInstance :: "nat compiler_instance" where
  "reusedInstance =
     mainInstance\<lparr>Context := new_ASTContext
       \<lparr>LoadedModules := [''main'' \<mapsto> 0],
        TranslationUnits := [\<lparr>Name = ''main'', Files = []\<rparr>]\<rparr>\<rparr>"

definition twoInputs :: "nat compiler_instance" where
  "twoInputs = mainInstance\<lparr>BufferIDs := [0, 1]\<rparr>"

definition badName :: invocation where
  "badName = exampleInvocation\<lparr>getModuleName := ''not-a-name''\<rparr>"

fun isParseCall :: "'d call \<Rightarrow> bool" where
  "isParseCall (ParseCall b sil ds d) = True"
| "isParseCall c = False"

section \<open>Ingesting buffers\<close>

lemma registerCopy_Some:
  "registerCopy a s = Some (b, s') \<Longrightarrow>
     a < length (Heap s) \<and> b = length (Buffers (SourceMgr s)) \<and>
     s' = s\<lparr>Heap := Heap s @ [Heap s ! a],
            SourceMgr := (SourceMgr s)\<lparr>Buffers := Buffers (SourceMgr s) @ [length (Heap s)]\<rparr>,
            BufferIDs := BufferIDs s @ [length (Buffers (SourceMgr s))]\<rparr>"
  by (auto simp: registerCopy_def getMemBufferCopy_def allocBuffer_def AddNewSourceBuffer_def
      push_BufferID_def split: if_splits)

lemma registerCopy_valid:
  "a < length (Heap s) \<Longrightarrow>
   registerCopy a s = Some (length (Buffers (SourceMgr s)),
     s\<lparr>Heap := Heap s @ [Heap s ! a],
       SourceMgr := (SourceMgr s)\<lparr>Buffers := Buffers (SourceMgr s) @ [length (Heap s)]\<rparr>,
       BufferIDs := BufferIDs s @ [length (Buffers (SourceMgr s))]\<rparr>)"
  by (simp add: registerCopy_def getMemBufferCopy_def allocBuffer_def AddNewSourceBuffer_def
      push_BufferID_def)

lemma registerCopy_None: "(registerCopy a s = None) = (\<not> a < length (Heap s))"
  by (auto simp: registerCopy_def getMemBufferCopy_def allocBuffer_def AddNewSourceBuffer_def
      push_BufferID_def split: if_splits)

lemma ingested_refl: "ingested s s []"
  by (simp add: ingested_def)

lemma upt_join: "[a..<a + m] @ [a + m..<a + (m + n)] = [a..<a + (m + n)]"
  using upt_add_eq_append[of a "a + m" n] by (simp add: add.assoc)

lemma ingested_trans: "ingested s s' as \<Longrightarrow> ingested s' s'' bs \<Longrightarrow> ingested s s'' (as @ bs)"
  by (simp add: ingested_def add.assoc upt_join)


lemma untouched_refl: "untouched s s"
  by (simp add: untouched_def)

lemma untouched_trans: "untouched s s' \<Longrightarrow> untouched s' s'' \<Longrightarrow> untouched s s''"
  by (simp add: untouched_def)

lemma step_registerCopy:
  "registerCopy a s = Some (b, s') \<Longrightarrow>
     ingested s s' [Heap s ! a] \<and> untouched s s' \<and> Diagnostics s' = Diagnostics s"
  by (drule registerCopy_Some) (simp add: ingested_def untouched_def)

lemma step_file:
  "ingested s (push_BufferID (length (Buffers (SourceMgr s)))
      (snd (AddNewSourceBuffer (length (Heap s)) (snd (allocBuffer b s))))) [b]
   \<and> untouched s (push_BufferID (length (Buffers (SourceMgr s)))
      (snd (AddNewSourceBuffer (length (Heap s)) (snd (allocBuffer b s)))))
   \<and> Diagnostics (push_BufferID (length (Buffers (SourceMgr s)))
      (snd (AddNewSourceBuffer (length (Heap s)) (snd (allocBuffer b s))))) = Diagnostics s"
  by (simp add: ingested_def untouched_def allocBuffer_def AddNewSourceBuffer_def push_BufferID_def)

lemma openInputFiles_Cons_Inr:
  "getFileOrSTDIN E File = Inr b \<Longrightarrow>
   openInputFiles E (File # rest) s =
     openInputFiles E rest (push_BufferID (length (Buffers (SourceMgr s)))
      (snd (AddNewSourceBuffer (length (Heap s)) (snd (allocBuffer b s)))))"
  by (simp add: allocBuffer_def AddNewSourceBuffer_def)

lemma openInputFiles_any:
  "\<exists>bs. ingested s (case openInputFiles E files s of Inl x \<Rightarrow> x | Inr x \<Rightarrow> x) bs \<and>
        untouched s (case openInputFiles E files s of Inl x \<Rightarrow> x | Inr x \<Rightarrow> x)"
proof (induction files arbitrary: s)
  case Nil
  show ?case using ingested_refl untouched_refl by auto
next
  case (Cons File rest)
  show ?case
  proof (cases "getFileOrSTDIN E File")
    case (Inl Err)
    have "ingested s (diagnose (error_open_input_file File Err) s) []"
      "untouched s (diagnose (error_open_input_file File Err) s)"
      by (simp_all add: ingested_def untouched_def diagnose_def)
    with Inl show ?thesis by auto
  next
    case (Inr b)
    let ?s1 = "push_BufferID (length (Buffers (SourceMgr s)))
      (snd (AddNewSourceBuffer (length (Heap s)) (snd (allocBuffer b s))))"
    from Cons.IH[of ?s1] obtain bs where
      "ingested ?s1 (case openInputFiles E rest ?s1 of Inl x \<Rightarrow> x | Inr x \<Rightarrow> x) bs"
      "untouched ?s1 (case openInputFiles E rest ?s1 of Inl x \<Rightarrow> x | Inr x \<Rightarrow> x)" by blast
    with step_file[of s b] show ?thesis
      unfolding openInputFiles_Cons_Inr[OF Inr]
      using ingested_trans untouched_trans by blast
  qed
qed



lemma openInputFiles_Inl:
  "list_all (readable E) pre \<Longrightarrow> getFileOrSTDIN E bad = Inl cause \<Longrightarrow>
   \<exists>s'. openInputFiles E (pre @ bad # post) s = Inl s' \<and> ingested s s' (fileBuffers E pre) \<and>
     untouched s s' \<and> Diagnostics s' = Diagnostics s @ [error_open_input_file bad cause]"
proof (induction pre arbitrary: s)
  case Nil
  then show ?case by (simp add: ingested_def untouched_def fileBuffers_def diagnose_def)
next
  case (Cons File rest)
  from Cons.prems obtain b where rd: "getFileOrSTDIN E File = Inr b"
    by (cases "getFileOrSTDIN E File") (auto simp: readable_def)
  let ?s1 = "push_BufferID (length (Buffers (SourceMgr s)))
      (snd (AddNewSourceBuffer (length (Heap s)) (snd (allocBuffer b s))))"
  from Cons.prems have "list_all (readable E) rest" by simp
  from Cons.IH[OF this Cons.prems(2), of ?s1] obtain s' where
    r: "openInputFiles E (rest @ bad # post) ?s1 = Inl s'" "ingested ?s1 s' (fileBuffers E rest)"
       "untouched ?s1 s'" "Diagnostics s' = Diagnostics ?s1 @ [error_open_input_file bad cause]" by blast
  have fb: "fileBuffers E (File # rest) = [b] @ fileBuffers E rest"
    by (simp add: fileBuffers_def rd)
  from r step_file[of s b] show ?case
    unfolding append_Cons openInputFiles_Cons_Inr[OF rd] fb
    using ingested_trans untouched_trans by fastforce
qed

lemma copyInputBuffers_any:
  "\<exists>bs. ingested s (case copyInputBuffers bufs s of Inl x \<Rightarrow> x | Inr x \<Rightarrow> x) bs \<and>
        untouched s (case copyInputBuffers bufs s of Inl x \<Rightarrow> x | Inr x \<Rightarrow> x) \<and>
        Diagnostics (case copyInputBuffers bufs s of Inl x \<Rightarrow> x | Inr x \<Rightarrow> x) = Diagnostics s"
proof (induction bufs arbitrary: s)
  case Nil
  show ?case using ingested_refl untouched_refl by auto
next
  case (Cons a rest)
  show ?case
  proof (cases "registerCopy a s")
    case None
    then show ?thesis using ingested_refl untouched_refl by auto
  next
    case (Some r)
    obtain b s1 where r: "r = (b, s1)" by (cases r)
    from step_registerCopy[of a s b s1] Some r
    have st: "ingested s s1 [Heap s ! a]" "untouched s s1" "Diagnostics s1 = Diagnostics s" by auto
    from Cons.IH[of s1] st Some r show ?thesis
      using ingested_trans untouched_trans by fastforce
  qed
qed


lemma addCodeCompletionBuffer_Some:
  "addCodeCompletionBuffer s = Some s' \<Longrightarrow>
     ingested s s' (completionBuffer (Invocation s) s) \<and> untouched s s' \<and>
     Diagnostics s' = Diagnostics s"
proof (cases "getCodeCompletionPoint (Invocation s)")
  case (Pair m off)
  assume A: "addCodeCompletionBuffer s = Some s'"
  show ?thesis
  proof (cases m)
    case None
    with A Pair show ?thesis
      by (simp add: addCodeCompletionBuffer_def completionBuffer_def ingested_refl untouched_refl)
  next
    case (Some MemBuf)
    with A Pair obtain b s1 where rc: "registerCopy MemBuf s = Some (b, s1)"
      and s': "s' = setCodeCompletionPoint b off s1"
      by (auto simp: addCodeCompletionBuffer_def split: option.splits)
    from step_registerCopy[OF rc] s' Pair Some show ?thesis
      by (simp add: ingested_def untouched_def completionBuffer_def setCodeCompletionPoint_def)
  qed
qed

lemma addCodeCompletionBuffer_valid:
  "(case fst (getCodeCompletionPoint (Invocation s)) of None \<Rightarrow> True | Some a \<Rightarrow> a < length (Heap s))
   \<Longrightarrow> \<exists>s'. addCodeCompletionBuffer s = Some s'"
  by (cases "getCodeCompletionPoint (Invocation s)")
     (auto simp: addCodeCompletionBuffer_def registerCopy_valid split: option.splits)

lemma acquireInputs_any:
  "\<exists>bs. ingested s (state_of (acquireInputs E s)) bs \<and> untouched s (state_of (acquireInputs E s))"
proof (cases "addCodeCompletionBuffer s")
  case None
  then show ?thesis using ingested_refl untouched_refl by (auto simp: acquireInputs_def)
next
  case (Some s1)
  note c = addCodeCompletionBuffer_Some[OF Some]
  let ?fs = "getInputFilenames (Invocation s1)"
  from openInputFiles_any[of s1 E ?fs] obtain bs where
    f: "ingested s1 (case openInputFiles E ?fs s1 of Inl x \<Rightarrow> x | Inr x \<Rightarrow> x) bs"
       "untouched s1 (case openInputFiles E ?fs s1 of Inl x \<Rightarrow> x | Inr x \<Rightarrow> x)" by blast
  show ?thesis
  proof (cases "openInputFiles E ?fs s1")
    case (Inl s2)
    with f c Some show ?thesis
      using ingested_trans untouched_trans by (fastforce simp: acquireInputs_def)
  next
    case (Inr s2)
    let ?bufs = "getInputBuffers (Invocation s2)"
    from copyInputBuffers_any[of s2 ?bufs] obtain cs where
      b: "ingested s2 (case copyInputBuffers ?bufs s2 of Inl x \<Rightarrow> x | Inr x \<Rightarrow> x) cs"
         "untouched s2 (case copyInputBuffers ?bufs s2 of Inl x \<Rightarrow> x | Inr x \<Rightarrow> x)" by blast
    from f Inr have f2: "ingested s1 s2 bs" "untouched s1 s2" by simp_all
    have i: "ingested s (case copyInputBuffers ?bufs s2 of Inl x \<Rightarrow> x | Inr x \<Rightarrow> x)
               (completionBuffer (Invocation s) s @ bs @ cs)"
      using ingested_trans[OF conjunct1[OF c] ingested_trans[OF f2(1) b(1)]] .
    have u: "untouched s (case copyInputBuffers ?bufs s2 of Inl x \<Rightarrow> x | Inr x \<Rightarrow> x)"
      using untouched_trans[OF conjunct1[OF conjunct2[OF c]] untouched_trans[OF f2(2) b(2)]] .
    from i u Some Inr show ?thesis
      by (auto simp: acquireInputs_def split: sum.splits)
  qed
qed



lemma acquireInputs_failure:
  assumes v: "completionBufferValid (Invocation s) s"
    and fs: "getInputFilenames (Invocation s) = pre @ bad # post"
    and r: "list_all (readable E) pre"
    and bad: "getFileOrSTDIN E bad = Inl cause"
  shows "\<exists>s'. acquireInputs E s = Returned True s' \<and>
     ingested s s' (completionBuffer (Invocation s) s @ fileBuffers E pre) \<and>
     untouched s s' \<and> Diagnostics s' = Diagnostics s @ [error_open_input_file bad cause]"
proof -
  from v addCodeCompletionBuffer_valid[of s] obtain s1 where
    c: "addCodeCompletionBuffer s = Some s1" by (auto simp: completionBufferValid_def)
  note c1 = addCodeCompletionBuffer_Some[OF c]
  from c1 have inv1: "Invocation s1 = Invocation s" by (simp add: untouched_def)
  from openInputFiles_Inl[OF r bad, of post s1] obtain s2 where
    f: "openInputFiles E (pre @ bad # post) s1 = Inl s2"
       "ingested s1 s2 (fileBuffers E pre)"
       "untouched s1 s2" "Diagnostics s2 = Diagnostics s1 @ [error_open_input_file bad cause]" by blast
  have "acquireInputs E s = Returned True s2"
    using c f(1) inv1 fs by (simp add: acquireInputs_def)
  moreover have "ingested s s2 (completionBuffer (Invocation s) s @ fileBuffers E pre)"
    using ingested_trans[OF conjunct1[OF c1] f(2)] .
  moreover have "untouched s s2"
    using untouched_trans[OF conjunct1[OF conjunct2[OF c1]] f(3)] .
  moreover have "Diagnostics s2 = Diagnostics s @ [error_open_input_file bad cause]" using c1 f(4) by simp
  ultimately show ?thesis by blast
qed

section \<open>The phases of \<^verbatim>\<open>setup\<close>\<close>

lemma setupContext_fields:
  "Invocation (setupContext Invok s) = Invok"
  "Heap (setupContext Invok s) = Heap s"
  "SourceMgr (setupContext Invok s) = SourceMgr s"
  "BufferIDs (setupContext Invok s) = BufferIDs s"
  "Diagnostics (setupContext Invok s) = Diagnostics s"
  "Calls (setupContext Invok s) = Calls s"
  "TU (setupContext Invok s) = TU s"
  "ModuleLoaders (Context (setupContext Invok s)) =
     [SourceLoader (\<not> isImmediate Invok), SerializedModuleLoader]"
  by (simp_all add: setupContext_def addModuleLoader_def new_ASTContext_def Let_def)

lemma wireClangImporter_Inl:
  "wireClangImporter E s = Inl x \<Longrightarrow>
     Invocation x = Invocation s \<and> Heap x = Heap s \<and> SourceMgr x = SourceMgr s \<and>
     BufferIDs x = BufferIDs s \<and> Calls x = Calls s \<and> TU x = TU s \<and>
     ModuleLoaders (Context x) = ModuleLoaders (Context s) \<and>
     getSDKPath (Invocation s) \<noteq> [] \<and> constructedImporter E (Invocation s) = None"
  by (auto simp: wireClangImporter_def diagnose_def constructedImporter_def
      split: if_splits option.splits)

lemma wireClangImporter_Inr:
  "wireClangImporter E s = Inr x \<Longrightarrow>
     Invocation x = Invocation s \<and> Heap x = Heap s \<and> SourceMgr x = SourceMgr s \<and>
     BufferIDs x = BufferIDs s \<and> Calls x = Calls s \<and> TU x = TU s \<and>
     Diagnostics x = Diagnostics s \<and>
     ModuleLoaders (Context x) = ModuleLoaders (Context s) @
       (if getSDKPath (Invocation s) \<noteq> [] then
          (case constructedImporter E (Invocation s) of
             None \<Rightarrow> [] | Some imp \<Rightarrow> [ClangImporter imp])
        else []) \<and>
     loadersReady E (Invocation s)"
  by (auto simp: wireClangImporter_def addModuleLoader_def constructedImporter_def
      loadersReady_def split: if_splits option.splits)

lemma wireClangImporter_ready:
  "loadersReady E (Invocation s) \<Longrightarrow> \<exists>x. wireClangImporter E s = Inr x"
  by (auto simp: wireClangImporter_def constructedImporter_def loadersReady_def
      split: option.splits)

lemma setup_reaches_inputs:
  assumes "loadersReady E Invok" and "isIdentifier E (getModuleName Invok)"
  shows "\<exists>s1. setup_instance E Invok s = acquireInputs E s1 \<and> Invocation s1 = Invok \<and>
     Heap s1 = Heap s \<and> SourceMgr s1 = SourceMgr s \<and> BufferIDs s1 = BufferIDs s \<and>
     Diagnostics s1 = Diagnostics s \<and> Calls s1 = Calls s \<and> TU s1 = TU s"
proof -
  from assms(1) wireClangImporter_ready[of E "setupContext Invok s"]
  obtain x where w: "wireClangImporter E (setupContext Invok s) = Inr x"
    by (auto simp: setupContext_fields)
  note f = wireClangImporter_Inr[OF w, unfolded setupContext_fields]
  let ?y = "if getInputKind (Invocation (addRuntimeIncludePath x)) = SIL
            then createSILModule (addRuntimeIncludePath x) else addRuntimeIncludePath x"
  have "setup_instance E Invok s = acquireInputs E ?y"
    using w assms(2) f by (simp add: setup_instance_def Let_def addRuntimeIncludePath_def)
  with f show ?thesis
    by (intro exI[of _ ?y]) (simp add: addRuntimeIncludePath_def createSILModule_def)
qed

lemma setup_prefix:
  "\<exists>s1. Invocation s1 = Invok \<and> Heap s1 = Heap s \<and> SourceMgr s1 = SourceMgr s \<and>
     BufferIDs s1 = BufferIDs s \<and> Calls s1 = Calls s \<and>
     ModuleLoaders (Context s1) = loaderChain E Invok \<and>
     (setup_instance E Invok s = acquireInputs E s1 \<or> state_of (setup_instance E Invok s) = s1)"
proof (cases "wireClangImporter E (setupContext Invok s)")
  case (Inl x)
  note f = wireClangImporter_Inl[OF Inl, unfolded setupContext_fields]
  have "state_of (setup_instance E Invok s) = x"
    using Inl by (simp add: setup_instance_def)
  with f show ?thesis
    by (intro exI[of _ x]) (simp add: loaderChain_def)
next
  case (Inr x)
  note f = wireClangImporter_Inr[OF Inr, unfolded setupContext_fields]
  let ?z = "addRuntimeIncludePath x"
  let ?y = "if getInputKind (Invocation ?z) = SIL then createSILModule ?z else ?z"
  have chain: "ModuleLoaders (Context x) = loaderChain E Invok"
    using f by (simp add: loaderChain_def)
  show ?thesis
  proof (cases "isIdentifier E (getModuleName Invok)")
    case True
    have "setup_instance E Invok s = acquireInputs E ?y"
      using Inr True f by (simp add: setup_instance_def Let_def addRuntimeIncludePath_def)
    with f chain show ?thesis
      by (intro exI[of _ ?y]) (simp add: addRuntimeIncludePath_def createSILModule_def)
  next
    case False
    have "state_of (setup_instance E Invok s) = ?z"
      using Inr False f by (simp add: setup_instance_def Let_def addRuntimeIncludePath_def)
    with f chain show ?thesis
      by (intro exI[of _ ?z]) (simp add: addRuntimeIncludePath_def)
  qed
qed

lemma setup_any:
  "\<exists>bs. ingested s (state_of (setup_instance E Invok s)) bs \<and>
     ModuleLoaders (Context (state_of (setup_instance E Invok s))) = loaderChain E Invok \<and>
     Invocation (state_of (setup_instance E Invok s)) = Invok \<and>
     Calls (state_of (setup_instance E Invok s)) = Calls s"
proof -
  from setup_prefix[of Invok s E] obtain s1 where
    p: "Invocation s1 = Invok" "Heap s1 = Heap s" "SourceMgr s1 = SourceMgr s"
       "BufferIDs s1 = BufferIDs s" "Calls s1 = Calls s"
       "ModuleLoaders (Context s1) = loaderChain E Invok"
       "setup_instance E Invok s = acquireInputs E s1 \<or> state_of (setup_instance E Invok s) = s1"
    by blast
  from p(7) show ?thesis
  proof
    assume a: "setup_instance E Invok s = acquireInputs E s1"
    from acquireInputs_any[of s1 E] obtain bs where
      "ingested s1 (state_of (acquireInputs E s1)) bs" "untouched s1 (state_of (acquireInputs E s1))"
      by blast
    with p a show ?thesis by (auto simp: ingested_def untouched_def)
  next
    assume "state_of (setup_instance E Invok s) = s1"
    with p show ?thesis by (auto simp: ingested_def)
  qed
qed








lemma fileBuffers_readable:
  "list_all (readable E) fs \<Longrightarrow> map (getFileOrSTDIN E) fs = map Inr (fileBuffers E fs)"
  by (induction fs) (auto simp: fileBuffers_def readable_def split: sum.splits)

section \<open>The parser loops of \<^verbatim>\<open>doIt\<close>\<close>

lemma typeChecks_append: "typeChecks (a @ b) = typeChecks a @ typeChecks b"
  by (induction a rule: typeChecks.induct) simp_all

lemma parsedBuffers_append: "parsedBuffers (a @ b) = parsedBuffers a @ parsedBuffers b"
  by (induction a rule: parsedBuffers.induct) simp_all

lemma parsedBatches_append: "parsedBatches (a @ b) = parsedBatches a @ parsedBatches b"
  by (induction a rule: parsedBatches.induct) simp_all

lemma parsedDone_append: "parsedDone (a @ b) = parsedDone a @ parsedDone b"
  by (induction a rule: parsedDone.induct) simp_all

lemma newCalls_append: "Calls s' = Calls s @ cs \<Longrightarrow> newCalls s s' = cs"
  by (simp add: newCalls_def)

lemma stepFrame_refl: "stepFrame s s"
  by (simp add: stepFrame_def)

lemma stepFrame_trans: "stepFrame s s' \<Longrightarrow> stepFrame s' s'' \<Longrightarrow> stepFrame s s''"
  by (simp add: stepFrame_def)

lemma parse_step:
  assumes "SF < length (SourceFiles (Context s))"
    and "parseIntoTranslationUnit P SF b sil ps dcb s = (Done, ps', s1)"
  shows "\<exists>ds. Calls s1 = Calls s @ [ParseCall b sil ds Done] \<and>
     declsOf SF s1 = declsOf SF s @ ds \<and> stepFrame s s1"
proof -
  obtain ds d p where r: "parse P (SourceFiles (Context s) ! SF) b sil dcb ps = (ds, d, p)"
    by (cases "parse P (SourceFiles (Context s) ! SF) b sil dcb ps") auto
  from assms r show ?thesis
    by (intro exI[of _ ds]) (auto simp: parseIntoTranslationUnit_def Let_def declsOf_def stepFrame_def)
qed

lemma pumpOnce_step:
  assumes "SF < length (SourceFiles (Context s))"
    and "pumpOnce P SF b dcb cur ps s = (Done, cur', ps', s2)"
  shows "\<exists>ds. Calls s2 = Calls s @ ParseCall b (TheSILModule s) ds Done #
              (if getParseOnly (Invocation s) then []
               else [TypeCheckCall (unat cur) (length (declsOf SF s) + length ds)]) \<and>
     declsOf SF s2 = declsOf SF s @ ds \<and>
     unat cur' = wrap32 (length (declsOf SF s) + length ds) \<and>
     stepFrame s s2"
proof -
  obtain d p s1 where r: "parseIntoTranslationUnit P SF b (TheSILModule s) ps dcb s = (d, p, s1)"
    by (cases "parseIntoTranslationUnit P SF b (TheSILModule s) ps dcb s") auto
  from parse_step[OF assms(1) r] obtain ds where
    a: "Calls s1 = Calls s @ [ParseCall b (TheSILModule s) ds d]"
       "declsOf SF s1 = declsOf SF s @ ds" "stepFrame s s1" by blast
  from assms(2) r a show ?thesis
    by (intro exI[of _ ds])
       (auto simp: pumpOnce_def Let_def performTypeChecking_def declsOf_def stepFrame_def
          wrap32_def)
qed


lemma pump_run:
  assumes "SF < length (SourceFiles (Context s))"
  shows "\<exists>cs. Calls (state_of (pump P fuel SF b dcb cur ps s)) = Calls s @ cs \<and>
      declsOf SF (state_of (pump P fuel SF b dcb cur ps s)) = declsOf SF s @ concat (parsedBatches cs) \<and>
      stepFrame s (state_of (pump P fuel SF b dcb cur ps s)) \<and>
      parsedBuffers cs = replicate (length (parsedBatches cs)) b \<and>
      length (parsedBatches cs) \<le> fuel \<and>
      typeChecks cs =
        (if getParseOnly (Invocation s) then []
         else zip (unat cur # map wrap32 (runningCounts (length (declsOf SF s)) (parsedBatches cs)))
                  (runningCounts (length (declsOf SF s)) (parsedBatches cs))) \<and>
      (returned (pump P fuel SF b dcb cur ps s) \<longrightarrow> parsedBatches cs \<noteq> [])"
  using assms
proof (induction fuel arbitrary: cur ps s)
  case 0
  show ?case by (intro exI[of _ "[]"]) (simp add: stepFrame_refl)
next
  case (Suc fuel)
  obtain Done cur' ps' s2 where once: "pumpOnce P SF b dcb cur ps s = (Done, cur', ps', s2)"
    by (cases "pumpOnce P SF b dcb cur ps s") auto
  from pumpOnce_step[OF Suc.prems once] obtain ds where
    st: "Calls s2 = Calls s @ ParseCall b (TheSILModule s) ds Done #
              (if getParseOnly (Invocation s) then []
               else [TypeCheckCall (unat cur) (length (declsOf SF s) + length ds)])"
        "declsOf SF s2 = declsOf SF s @ ds"
        "unat cur' = wrap32 (length (declsOf SF s) + length ds)"
        "stepFrame s s2" by blast
  let ?c1 = "ParseCall b (TheSILModule s) ds Done #
              (if getParseOnly (Invocation s) then []
               else [TypeCheckCall (unat cur) (length (declsOf SF s) + length ds)])"
  show ?case
  proof (cases Done)
    case True
    with once have out: "pump P (Suc fuel) SF b dcb cur ps s = Returned (cur', ps') s2" by simp
    show ?thesis unfolding out using st
      by (intro exI[of _ ?c1]) simp
  next
    case False
    with once have out: "pump P (Suc fuel) SF b dcb cur ps s = pump P fuel SF b dcb cur' ps' s2"
      by simp
    from st(4) Suc.prems have sf2: "SF < length (SourceFiles (Context s2))"
      by (simp add: stepFrame_def)
    from st(4) have po: "getParseOnly (Invocation s2) = getParseOnly (Invocation s)"
      by (simp add: stepFrame_def)
    let ?out = "pump P fuel SF b dcb cur' ps' s2"
    from Suc.IH[OF sf2, of cur' ps'] obtain cs where
      ih: "Calls (state_of ?out) = Calls s2 @ cs"
          "declsOf SF (state_of ?out) = declsOf SF s2 @ concat (parsedBatches cs)"
          "stepFrame s2 (state_of ?out)"
          "parsedBuffers cs = replicate (length (parsedBatches cs)) b"
          "length (parsedBatches cs) \<le> fuel"
          "typeChecks cs =
            (if getParseOnly (Invocation s2) then []
             else zip (unat cur' # map wrap32 (runningCounts (length (declsOf SF s2)) (parsedBatches cs)))
                  (runningCounts (length (declsOf SF s2)) (parsedBatches cs)))"
          "returned ?out \<longrightarrow> parsedBatches cs \<noteq> []" by blast
    show ?thesis unfolding out
      using st ih po stepFrame_trans[OF st(4) ih(3)]
      by (intro exI[of _ "?c1 @ cs"])
         (simp add: typeChecks_append parsedBuffers_append parsedBatches_append)
  qed
qed


lemma pump_fuel_mono:
  "pump P fuel SF b dcb cur ps s = Returned r s' \<Longrightarrow>
   pump P (fuel + k) SF b dcb cur ps s = Returned r s'"
proof (induction fuel arbitrary: cur ps s)
  case 0
  then show ?case by simp
next
  case (Suc fuel)
  obtain Done cur' ps' s2 where once: "pumpOnce P SF b dcb cur ps s = (Done, cur', ps', s2)"
    by (cases "pumpOnce P SF b dcb cur ps s") auto
  show ?case
  proof (cases Done)
    case True
    with once Suc.prems show ?thesis by simp
  next
    case False
    with once Suc.prems have "pump P fuel SF b dcb cur' ps' s2 = Returned r s'" by simp
    from Suc.IH[OF this] once False show ?thesis by simp
  qed
qed

lemma parseAll_run:
  assumes "SF < length (SourceFiles (Context s))"
  shows "\<exists>cs. Calls (case parseAll P SF dcb bufs ps s of Inl x \<Rightarrow> x | Inr (p, x) \<Rightarrow> x) = Calls s @ cs \<and>
      declsOf SF (case parseAll P SF dcb bufs ps s of Inl x \<Rightarrow> x | Inr (p, x) \<Rightarrow> x) =
        declsOf SF s @ concat (parsedBatches cs) \<and>
      stepFrame s (case parseAll P SF dcb bufs ps s of Inl x \<Rightarrow> x | Inr (p, x) \<Rightarrow> x) \<and>
      length (parsedBuffers cs) = length cs \<and>
      parsedBuffers cs = take (length cs) bufs \<and>
      typeChecks cs = [] \<and>
      (bufs \<noteq> [] \<longrightarrow> cs \<noteq> []) \<and>
      (case parseAll P SF dcb bufs ps s of
         Inl x \<Rightarrow> True
       | Inr (p, x) \<Rightarrow> length cs = length bufs \<and> parsedDone cs = replicate (length bufs) True)"
  using assms
proof (induction bufs arbitrary: ps s)
  case Nil
  show ?case by (intro exI[of _ "[]"]) (simp add: stepFrame_refl)
next
  case (Cons b rest)
  obtain Done ps' s1 where r: "parseIntoTranslationUnit P SF b False ps dcb s = (Done, ps', s1)"
    by (cases "parseIntoTranslationUnit P SF b False ps dcb s") auto
  from parse_step[OF Cons.prems r] obtain ds where
    st: "Calls s1 = Calls s @ [ParseCall b False ds Done]"
        "declsOf SF s1 = declsOf SF s @ ds" "stepFrame s s1" by blast
  show ?case
  proof (cases Done)
    case False
    with r have out: "parseAll P SF dcb (b # rest) ps s = Inl s1" by simp
    show ?thesis unfolding out using st
      by (intro exI[of _ "[ParseCall b False ds Done]"]) simp
  next
    case True
    with r have out: "parseAll P SF dcb (b # rest) ps s = parseAll P SF dcb rest ps' s1" by simp
    from st(3) Cons.prems have sf1: "SF < length (SourceFiles (Context s1))"
      by (simp add: stepFrame_def)
    let ?fin = "case parseAll P SF dcb rest ps' s1 of Inl x \<Rightarrow> x | Inr (p, x) \<Rightarrow> x"
    from Cons.IH[OF sf1, of ps'] obtain cs where
      ih: "Calls ?fin = Calls s1 @ cs"
          "declsOf SF ?fin = declsOf SF s1 @ concat (parsedBatches cs)"
          "stepFrame s1 ?fin"
          "length (parsedBuffers cs) = length cs"
          "parsedBuffers cs = take (length cs) rest"
          "typeChecks cs = []"
          "case parseAll P SF dcb rest ps' s1 of
             Inl x \<Rightarrow> True
           | Inr (p, x) \<Rightarrow> length cs = length rest \<and> parsedDone cs = replicate (length rest) True"
      by blast
    show ?thesis unfolding out
      using st ih True stepFrame_trans[OF st(3) ih(3)]
      by (intro exI[of _ "ParseCall b False ds Done # cs"])
         (auto split: sum.splits)
  qed
qed

lemma createTU_facts:
  "fst (createTU s) = length (SourceFiles (Context s))"
  "length (SourceFiles (Context s)) < length (SourceFiles (Context (snd (createTU s))))"
  "declsOf (length (SourceFiles (Context s))) (snd (createTU s)) = []"
  "Calls (snd (createTU s)) = Calls s"
  "Invocation (snd (createTU s)) = Invocation s"
  "BufferIDs (snd (createTU s)) = BufferIDs s"
  "SourceMgr (snd (createTU s)) = SourceMgr s"
  "TheSILModule (snd (createTU s)) = TheSILModule s"
  "TU (snd (createTU s)) = Some (length (TranslationUnits (Context s)))"
  "LoadedModules (Context (snd (createTU s))) =
     (LoadedModules (Context s))(getModuleName (Invocation s) \<mapsto> length (TranslationUnits (Context s)))"
  "TranslationUnits (Context (snd (createTU s))) =
     TranslationUnits (Context s) @
       [\<lparr>Name = getModuleName (Invocation s), Files = [length (SourceFiles (Context s))]\<rparr>]"
  by (simp_all add: createTU_def new_TranslationUnit_def new_SourceFile_def addSourceFile_def
      Let_def declsOf_def)

lemma chooseDelayedCB_createTU: "chooseDelayedCB (snd (createTU s)) = chooseDelayedCB s"
  by (simp add: chooseDelayedCB_def createTU_facts)

lemma doIt_REPL:
  "getInputKind (Invocation s) = REPL \<Longrightarrow> doIt P fuel s = Returned () (snd (createTU s))"
  by (simp add: doIt_def Let_def split_beta)

lemma doIt_Library:
  "getInputKind (Invocation s) = Library \<Longrightarrow>
   doIt P fuel s =
     (case parseAll P (length (SourceFiles (Context s))) (chooseDelayedCB s) (BufferIDs s)
             (initialState P) (snd (createTU s)) of
        Inl s2 \<Rightarrow> Aborted (AssertionFailed ''Parser returned early?'') s2
      | Inr (ps, s2) \<Rightarrow>
          Returned ()
            (s2\<lparr>Calls := Calls s2 @
                 (if getParseOnly (Invocation s2) then []
                  else [TypeCheckCall 0 (length (declsOf (length (SourceFiles (Context s))) s2))]) @
                 (if chooseDelayedCB s \<noteq> None then [DelayedParsingCall] else [])\<rparr>))"
  by (auto simp: doIt_def Let_def split_beta createTU_facts chooseDelayedCB_createTU
      performTypeChecking_def performDelayedParsing_def declsOf_def split: sum.splits)

lemma doIt_too_many:
  "getInputKind (Invocation s) = Main \<or> getInputKind (Invocation s) = SIL \<Longrightarrow>
   length (BufferIDs s) \<noteq> 1 \<Longrightarrow>
   doIt P fuel s = Aborted (AssertionFailed ''This mode only allows one input'') (snd (createTU s))"
  by (auto simp: doIt_def Let_def split_beta createTU_facts)

lemma beforePump_facts:
  "length (SourceFiles (Context s)) < length (SourceFiles (Context (beforePump s)))"
  "declsOf (length (SourceFiles (Context s))) (beforePump s) = []"
  "Calls (beforePump s) = Calls s"
  "Invocation (beforePump s) = Invocation s"
  "stepFrame (snd (createTU s)) (beforePump s)"
  using createTU_facts(2,3)[of s]
  by (simp_all add: beforePump_def setHashbangBufferID_def createTU_facts declsOf_def stepFrame_def)

lemma doIt_pump:
  "getInputKind (Invocation s) = Main \<or> getInputKind (Invocation s) = SIL \<Longrightarrow>
   length (BufferIDs s) = 1 \<Longrightarrow>
   doIt P fuel s =
     (case pump P fuel (length (SourceFiles (Context s))) (BufferIDs s ! 0) (chooseDelayedCB s) 0
             (initialState P) (beforePump s) of
        Returned r s3 \<Rightarrow>
          Returned () (s3\<lparr>Calls := Calls s3 @
                 (if chooseDelayedCB s \<noteq> None then [DelayedParsingCall] else [])\<rparr>)
      | Aborted f s3 \<Rightarrow> Aborted f s3
      | OutOfFuel s3 \<Rightarrow> OutOfFuel s3)"
  by (auto simp: doIt_def Let_def split_beta createTU_facts chooseDelayedCB_createTU beforePump_def
      performDelayedParsing_def split: outcome.splits)

lemma doIt_any:
  "\<exists>cs. Calls (state_of (doIt P fuel s)) = Calls s @ cs \<and>
     (getParseOnly (Invocation s) \<longrightarrow> typeChecks cs = []) \<and>
     stepFrame (snd (createTU s)) (state_of (doIt P fuel s))"
proof (cases "getInputKind (Invocation s)")
  case REPL
  show ?thesis unfolding doIt_REPL[OF REPL]
    by (intro exI[of _ "[]"]) (simp add: createTU_facts stepFrame_refl)
next
  case Library
  let ?sf = "length (SourceFiles (Context s))"
  let ?r = "parseAll P ?sf (chooseDelayedCB s) (BufferIDs s) (initialState P) (snd (createTU s))"
  let ?fin = "case ?r of Inl x \<Rightarrow> x | Inr (p, x) \<Rightarrow> x"
  from parseAll_run[OF createTU_facts(2)[of s], where P=P and dcb="chooseDelayedCB s"
      and bufs="BufferIDs s" and ps="initialState P"]
  obtain cs where
    r: "Calls ?fin = Calls (snd (createTU s)) @ cs" "stepFrame (snd (createTU s)) ?fin"
       "typeChecks cs = []" by blast
  show ?thesis
  proof (cases ?r)
    case (Inl x)
    with r show ?thesis unfolding doIt_Library[OF Library]
      by (intro exI[of _ cs]) (simp add: createTU_facts)
  next
    case (Inr px)
    obtain p x where px: "px = (p, x)" by (cases px)
    let ?tail = "(if getParseOnly (Invocation x) then []
                  else [TypeCheckCall 0 (length (declsOf ?sf x))]) @
                 (if chooseDelayedCB s \<noteq> None then [DelayedParsingCall] else [])"
    from r Inr px have x: "Calls x = Calls s @ cs" "stepFrame (snd (createTU s)) x"
      by (simp_all add: createTU_facts)
    then have po: "getParseOnly (Invocation x) = getParseOnly (Invocation s)"
      by (simp add: stepFrame_def createTU_facts)
    from x r(3) po Inr px show ?thesis unfolding doIt_Library[OF Library]
      by (intro exI[of _ "cs @ ?tail"]) (simp add: typeChecks_append stepFrame_def)
  qed
next
  case Main
  then have k: "getInputKind (Invocation s) = Main \<or> getInputKind (Invocation s) = SIL" by simp
  show ?thesis
  proof (cases "length (BufferIDs s) = 1")
    case False
    show ?thesis unfolding doIt_too_many[OF k False]
      by (intro exI[of _ "[]"]) (simp add: createTU_facts stepFrame_refl)
  next
    case True
    let ?out = "pump P fuel (length (SourceFiles (Context s))) (BufferIDs s ! 0) (chooseDelayedCB s) 0
             (initialState P) (beforePump s)"
    from pump_run[OF beforePump_facts(1)[of s], where P=P and fuel=fuel and b="BufferIDs s ! 0"
      and dcb="chooseDelayedCB s" and cur=0 and ps="initialState P"]
    obtain cs where
      r: "Calls (state_of ?out) = Calls (beforePump s) @ cs" "stepFrame (beforePump s) (state_of ?out)"
         "typeChecks cs = (if getParseOnly (Invocation (beforePump s)) then []
            else zip (unat (0 :: 32 word) # map wrap32 (runningCounts (length (declsOf (length (SourceFiles (Context s))) (beforePump s))) (parsedBatches cs)))
                  (runningCounts (length (declsOf (length (SourceFiles (Context s))) (beforePump s))) (parsedBatches cs)))"
      by blast
    note fr = stepFrame_trans[OF beforePump_facts(5) r(2)]
    show ?thesis
    proof (cases ?out)
      case (Returned rr s3)
      with r fr show ?thesis unfolding doIt_pump[OF k True]
        by (intro exI[of _ "cs @ (if chooseDelayedCB s \<noteq> None then [DelayedParsingCall] else [])"])
           (simp add: beforePump_facts typeChecks_append stepFrame_def)
    next
      case (Aborted f s3)
      with r fr show ?thesis unfolding doIt_pump[OF k True]
        by (intro exI[of _ cs]) (simp add: beforePump_facts)
    next
      case (OutOfFuel s3)
      with r fr show ?thesis unfolding doIt_pump[OF k True]
        by (intro exI[of _ cs]) (simp add: beforePump_facts)
    qed
  qed
next
  case SIL
  then have k: "getInputKind (Invocation s) = Main \<or> getInputKind (Invocation s) = SIL" by simp
  show ?thesis
  proof (cases "length (BufferIDs s) = 1")
    case False
    show ?thesis unfolding doIt_too_many[OF k False]
      by (intro exI[of _ "[]"]) (simp add: createTU_facts stepFrame_refl)
  next
    case True
    let ?out = "pump P fuel (length (SourceFiles (Context s))) (BufferIDs s ! 0) (chooseDelayedCB s) 0
             (initialState P) (beforePump s)"
    from pump_run[OF beforePump_facts(1)[of s], where P=P and fuel=fuel and b="BufferIDs s ! 0"
      and dcb="chooseDelayedCB s" and cur=0 and ps="initialState P"]
    obtain cs where
      r: "Calls (state_of ?out) = Calls (beforePump s) @ cs" "stepFrame (beforePump s) (state_of ?out)"
         "typeChecks cs = (if getParseOnly (Invocation (beforePump s)) then []
            else zip (unat (0 :: 32 word) # map wrap32 (runningCounts (length (declsOf (length (SourceFiles (Context s))) (beforePump s))) (parsedBatches cs)))
                  (runningCounts (length (declsOf (length (SourceFiles (Context s))) (beforePump s))) (parsedBatches cs)))"
      by blast
    note fr = stepFrame_trans[OF beforePump_facts(5) r(2)]
    show ?thesis
    proof (cases ?out)
      case (Returned rr s3)
      with r fr show ?thesis unfolding doIt_pump[OF k True]
        by (intro exI[of _ "cs @ (if chooseDelayedCB s \<noteq> None then [DelayedParsingCall] else [])"])
           (simp add: beforePump_facts typeChecks_append stepFrame_def)
    next
      case (Aborted f s3)
      with r fr show ?thesis unfolding doIt_pump[OF k True]
        by (intro exI[of _ cs]) (simp add: beforePump_facts)
    next
      case (OutOfFuel s3)
      with r fr show ?thesis unfolding doIt_pump[OF k True]
        by (intro exI[of _ cs]) (simp add: beforePump_facts)
    qed
  qed
qed

lemma returned_unit: "returned out \<Longrightarrow> out = Returned () (state_of out)"
  by (cases out) simp_all








lemma declsOf_Calls: "declsOf SF (s\<lparr>Calls := c\<rparr>) = declsOf SF s"
  by (simp add: declsOf_def)


lemma doIt_Library_Returned:
  assumes k: "getInputKind (Invocation s) = Library"
    and ret: "doIt P fuel s = Returned () s'"
  shows "\<exists>cs. newCalls s s' = cs @
       (if getParseOnly (Invocation s) then []
        else [TypeCheckCall 0 (length (declsOf (length (SourceFiles (Context s))) s'))]) @
       (if chooseDelayedCB s \<noteq> None then [DelayedParsingCall] else []) \<and>
     declsOf (length (SourceFiles (Context s))) s' = concat (parsedBatches cs) \<and>
     length cs = length (BufferIDs s) \<and> length (parsedBuffers cs) = length cs \<and>
     parsedBuffers cs = BufferIDs s \<and>
     parsedDone cs = replicate (length (BufferIDs s)) True \<and> typeChecks cs = []"
proof -
  let ?sf = "length (SourceFiles (Context s))"
  let ?r = "parseAll P ?sf (chooseDelayedCB s) (BufferIDs s) (initialState P) (snd (createTU s))"
  let ?fin = "case ?r of Inl x \<Rightarrow> x | Inr (p, x) \<Rightarrow> x"
  from ret obtain p x where inr: "?r = Inr (p, x)"
    and s': "s' = x\<lparr>Calls := Calls x @
                 (if getParseOnly (Invocation x) then []
                  else [TypeCheckCall 0 (length (declsOf ?sf x))]) @
                 (if chooseDelayedCB s \<noteq> None then [DelayedParsingCall] else [])\<rparr>"
    unfolding doIt_Library[OF k] by (auto split: sum.splits)
  from parseAll_run[OF createTU_facts(2)[of s], where P=P and dcb="chooseDelayedCB s"
      and bufs="BufferIDs s" and ps="initialState P"]
  obtain cs where
    r: "Calls ?fin = Calls (snd (createTU s)) @ cs"
       "declsOf ?sf ?fin = declsOf ?sf (snd (createTU s)) @ concat (parsedBatches cs)"
       "stepFrame (snd (createTU s)) ?fin"
       "length (parsedBuffers cs) = length cs"
       "parsedBuffers cs = take (length cs) (BufferIDs s)"
       "typeChecks cs = []"
       "case ?r of Inl x \<Rightarrow> True
         | Inr (p, x) \<Rightarrow> length cs = length (BufferIDs s) \<and>
             parsedDone cs = replicate (length (BufferIDs s)) True"
    by blast
  from r(3) inr have po: "getParseOnly (Invocation x) = getParseOnly (Invocation s)"
    by (simp add: stepFrame_def createTU_facts)
  from s' have dx: "declsOf ?sf s' = declsOf ?sf x" by (simp add: declsOf_Calls)
  from s' have cx: "Calls s' = Calls x @
                 (if getParseOnly (Invocation x) then []
                  else [TypeCheckCall 0 (length (declsOf ?sf x))]) @
                 (if chooseDelayedCB s \<noteq> None then [DelayedParsingCall] else [])" by simp
  from r(2) inr have "declsOf ?sf x = concat (parsedBatches cs)" by (simp add: createTU_facts)
  with dx have d: "declsOf ?sf s' = concat (parsedBatches cs)" by simp
  from r(1) inr have "Calls x = Calls s @ cs" by (simp add: createTU_facts)
  with cx have "newCalls s s' = cs @
       (if getParseOnly (Invocation s) then []
        else [TypeCheckCall 0 (length (declsOf ?sf s'))]) @
       (if chooseDelayedCB s \<noteq> None then [DelayedParsingCall] else [])"
    unfolding po dx[symmetric] by (simp add: newCalls_def)
  moreover note d
  moreover from r(7) inr have "length cs = length (BufferIDs s)"
    "parsedDone cs = replicate (length (BufferIDs s)) True" by simp_all
  moreover from r(5) \<open>length cs = length (BufferIDs s)\<close> have "parsedBuffers cs = BufferIDs s" by simp
  moreover note r(4) r(6)
  ultimately show ?thesis by blast
qed

lemma parsedBuffers_length_le: "length (parsedBuffers cs) \<le> length cs"
  by (induction cs rule: parsedBuffers.induct) simp_all

lemma parsedBuffers_all:
  "length (parsedBuffers cs) = length cs \<Longrightarrow> list_all isParseCall cs"
proof (induction cs)
  case Nil
  show ?case by simp
next
  case (Cons c cs)
  have le: "length (parsedBuffers cs) \<le> length cs" by (rule parsedBuffers_length_le)
  from Cons le show ?case by (cases c) auto
qed


text \<open>
  The pump loop ends when the parser is done: with a parser that follows a script, fuel
  for every batch of the script (and for one call at least) makes \<^verbatim>\<open>doIt\<close> return. In
  library mode \<^verbatim>\<open>doIt\<close> needs no fuel.
\<close>

lemma pumpOnce_parse:
  "pumpOnce P SF b dcb cur ps s = (Done, cur', ps', s2) \<Longrightarrow>
   \<exists>ds. parse P (SourceFiles (Context s) ! SF) b (TheSILModule s) dcb ps = (ds, Done, ps')"
  by (auto simp: pumpOnce_def parseIntoTranslationUnit_def Let_def split: prod.splits)

lemma pump_script_returns:
  "length script \<le> fuel \<Longrightarrow> 0 < fuel \<Longrightarrow>
   returned (pump (scriptParser script0) fuel SF b dcb cur script s)"
proof (induction script arbitrary: fuel cur s)
  case Nil
  then obtain n where n: "fuel = Suc n" by (cases fuel) auto
  obtain Done cur' ps' s2 where
    once: "pumpOnce (scriptParser script0) SF b dcb cur [] s = (Done, cur', ps', s2)"
    by (cases "pumpOnce (scriptParser script0) SF b dcb cur [] s") auto
  from pumpOnce_parse[OF once] have "Done" by (simp add: scriptParser_def)
  with once show ?case unfolding n by simp
next
  case (Cons ds rest)
  then obtain n where n: "fuel = Suc n" by (cases fuel) auto
  obtain Done cur' ps' s2 where
    once: "pumpOnce (scriptParser script0) SF b dcb cur (ds # rest) s = (Done, cur', ps', s2)"
    by (cases "pumpOnce (scriptParser script0) SF b dcb cur (ds # rest) s") auto
  show ?case
  proof (cases rest)
    case Nil
    with pumpOnce_parse[OF once] have "Done" by (simp add: scriptParser_def)
    with once show ?thesis unfolding n by simp
  next
    case (Cons d2 r2)
    with pumpOnce_parse[OF once] have d: "\<not> Done" "ps' = rest" by (simp_all add: scriptParser_def)
    from Cons.prems n Cons have "length rest \<le> n" "0 < n" by simp_all
    from Cons.IH[OF this] d once show ?thesis unfolding n by simp
  qed
qed

lemma doIt_script_returns:
  assumes "getInputKind (Invocation s) = Main \<or> getInputKind (Invocation s) = SIL"
    and "length (BufferIDs s) = 1" and "length script \<le> fuel" and "0 < fuel"
  shows "returned (doIt (scriptParser script) fuel s)"
proof -
  have i: "initialState (scriptParser script) = script" by (simp add: scriptParser_def)
  let ?out = "pump (scriptParser script) fuel (length (SourceFiles (Context s))) (BufferIDs s ! 0)
      (chooseDelayedCB s) 0 script (beforePump s)"
  have "returned ?out" by (rule pump_script_returns[OF assms(3,4)])
  then show ?thesis unfolding doIt_pump[OF assms(1,2)] i by (cases ?out) simp_all
qed

lemma doIt_Library_ends:
  "getInputKind (Invocation s) = Library \<Longrightarrow> returned (doIt P fuel s) \<or> aborted (doIt P fuel s)"
  unfolding doIt_Library by (auto split: sum.splits)

section \<open>What \<^verbatim>\<open>setup\<close> guarantees\<close>

text \<open>
  C4. However \<^verbatim>\<open>setup\<close> ends, the loader chain of the new context starts with the same
  two loaders, the source loader first and the serialized-module loader second. A third
  loader, the Clang importer, follows them exactly when the invocation has a non-empty
  SDK path and the importer's constructor is linked in and constructs one. With no SDK
  path the chain is the two loaders and nothing else.
\<close>
theorem setup_loader_chain:
  "ModuleLoaders (Context (state_of (setup_instance E Invok s))) =
     [SourceLoader (\<not> isImmediate Invok), SerializedModuleLoader] @
     (if getSDKPath Invok \<noteq> [] then
        (case constructedImporter E Invok of None \<Rightarrow> [] | Some imp \<Rightarrow> [ClangImporter imp])
      else [])"
  using setup_any[of s E Invok] by (auto simp: loaderChain_def)

theorem setup_loader_chain_witness:
  "ModuleLoaders (Context (state_of (setup_instance exampleEnv exampleInvocation
      (newInstance [] :: nat compiler_instance)))) = [SourceLoader True, SerializedModuleLoader] \<and>
   ModuleLoaders (Context (state_of (setup_instance importerEnv sdkInvocation
      (newInstance twoBuffers :: nat compiler_instance)))) =
     [SourceLoader True, SerializedModuleLoader, ClangImporter 7]"
  using setup_loader_chain[of exampleEnv exampleInvocation "newInstance []"]
    setup_loader_chain[of importerEnv sdkInvocation "newInstance twoBuffers"]
  by (simp add: exampleInvocation_def sdkInvocation_def importerEnv_def exampleEnv_def
      constructedImporter_def)

text \<open>
  C6. With a non-empty SDK path and no Clang importer linked in, \<^verbatim>\<open>setup\<close> returns
  the error with the diagnostic \<open>error_clang_importer_not_linked_in\<close> and stops before
  the inputs: the buffer ids, the source manager and the heap are as they were, so no
  buffer, neither the completion buffer nor a file nor a buffer in memory, has been
  ingested, and the buffer list of a new instance is left empty.
\<close>
theorem setup_importer_not_linked_in:
  assumes "getSDKPath Invok \<noteq> []" and "getClangImporterCtor E = None"
  shows "\<exists>s'. setup_instance E Invok s = Returned True s' \<and>
     Diagnostics s' = Diagnostics s @ [error_clang_importer_not_linked_in] \<and>
     BufferIDs s' = BufferIDs s \<and> SourceMgr s' = SourceMgr s \<and> Heap s' = Heap s"
  using assms
  by (simp add: setup_instance_def setupContext_def wireClangImporter_def addModuleLoader_def
      diagnose_def Let_def)

theorem setup_importer_not_linked_in_witness:
  "\<exists>s'. setup_instance exampleEnv sdkInvocation (newInstance twoBuffers :: nat compiler_instance) =
       Returned True s' \<and>
     Diagnostics s' = [error_clang_importer_not_linked_in] \<and>
     BufferIDs s' = [] \<and> Buffers (SourceMgr s') = [] \<and> Heap s' = twoBuffers"
proof -
  let ?s = "newInstance twoBuffers :: nat compiler_instance"
  have 1: "getSDKPath sdkInvocation \<noteq> []" by (simp add: sdkInvocation_def)
  have 2: "getClangImporterCtor exampleEnv = None" by (simp add: exampleEnv_def)
  have s: "Diagnostics ?s = []" "BufferIDs ?s = []" "Buffers (SourceMgr ?s) = []"
    "Heap ?s = twoBuffers" by (simp_all add: newInstance_def)
  from setup_importer_not_linked_in[OF 1 2, of ?s] obtain s' where
    "setup_instance exampleEnv sdkInvocation ?s = Returned True s'"
    "Diagnostics s' = Diagnostics ?s @ [error_clang_importer_not_linked_in]"
    "BufferIDs s' = BufferIDs ?s" "SourceMgr s' = SourceMgr ?s" "Heap s' = Heap ?s" by blast
  then show ?thesis by (intro exI[of _ s']) (simp add: s)
qed

text \<open>
  C5, as amended. \<^verbatim>\<open>setup\<close> fails fast on its input files, when it comes to them:
  when the loaders do not end it before (no SDK path, or the Clang importer is
  constructed), the module name is an identifier, and the completion buffer of the
  caller, if one is given, is a buffer. Nothing is asked of the buffers in memory, which
  come after the files. If the input paths are \<open>pre @ bad # post\<close>, every path of \<open>pre\<close> can
  be read and \<open>bad\<close> cannot, then \<^verbatim>\<open>setup\<close> returns the error, its one new diagnostic
  names \<open>bad\<close> and the cause, and the buffers ingested are the completion buffer and
  the files of \<open>pre\<close>, each of them, in order: nothing is ingested for \<open>bad\<close> nor for
  any path of \<open>post\<close>.
\<close>
theorem setup_fail_fast:
  assumes "loadersReady E Invok" and "isIdentifier E (getModuleName Invok)"
    and "completionBufferValid Invok s"
    and "getInputFilenames Invok = pre @ bad # post"
    and "list_all (readable E) pre"
    and "getFileOrSTDIN E bad = Inl cause"
  shows "\<exists>s'. setup_instance E Invok s = Returned True s' \<and>
     Diagnostics s' = Diagnostics s @ [error_open_input_file bad cause] \<and>
     ingested s s' (completionBuffer Invok s @ fileBuffers E pre) \<and>
     map (getFileOrSTDIN E) pre = map Inr (fileBuffers E pre)"
proof -
  from setup_reaches_inputs[OF assms(1,2), of s] obtain s1 where
    p: "setup_instance E Invok s = acquireInputs E s1" "Invocation s1 = Invok"
       "Heap s1 = Heap s" "SourceMgr s1 = SourceMgr s" "BufferIDs s1 = BufferIDs s"
       "Diagnostics s1 = Diagnostics s" by blast
  have v: "completionBufferValid (Invocation s1) s1"
    using assms(3) p by (simp add: completionBufferValid_def split: option.splits)
  have fs: "getInputFilenames (Invocation s1) = pre @ bad # post" using assms(4) p by simp
  have cb: "completionBuffer (Invocation s1) s1 = completionBuffer Invok s"
    using p by (simp add: completionBuffer_def split: option.splits)
  from acquireInputs_failure[OF v fs assms(5,6)] obtain s' where
    "acquireInputs E s1 = Returned True s'"
    "ingested s1 s' (completionBuffer (Invocation s1) s1 @ fileBuffers E pre)"
    "Diagnostics s' = Diagnostics s1 @ [error_open_input_file bad cause]" by blast
  with p fileBuffers_readable[OF assms(5)] show ?thesis
    unfolding cb by (auto simp: ingested_def)
qed

theorem setup_fail_fast_witness:
  "\<exists>s'. setup_instance exampleEnv fiveFiles (newInstance [] :: nat compiler_instance) =
       Returned True s' \<and>
     Diagnostics s' = [error_open_input_file ''missing.swift'' ''No such file or directory''] \<and>
     BufferIDs s' = [0, 1] \<and>
     Heap s' = [\<lparr>getBuffer = ''var x = 1'', getBufferIdentifier = ''a.swift''\<rparr>,
                \<lparr>getBuffer = ''var x = 1'', getBufferIdentifier = ''b.swift''\<rparr>]"
proof -
  have 1: "loadersReady exampleEnv fiveFiles"
    by (simp add: loadersReady_def fiveFiles_def exampleInvocation_def)
  have 2: "isIdentifier exampleEnv (getModuleName fiveFiles)"
    by (simp add: exampleEnv_def fiveFiles_def exampleInvocation_def)
  have 3: "completionBufferValid fiveFiles (newInstance [] :: nat compiler_instance)"
    by (simp add: completionBufferValid_def fiveFiles_def exampleInvocation_def)
  have 4: "getInputFilenames fiveFiles = [''a.swift'', ''b.swift''] @ ''missing.swift'' # [''d.swift'', ''e.swift'']"
    by (simp add: fiveFiles_def)
  have 5: "list_all (readable exampleEnv) [''a.swift'', ''b.swift'']"
    by (simp add: readable_def exampleEnv_def)
  have 6: "getFileOrSTDIN exampleEnv ''missing.swift'' = Inl ''No such file or directory''"
    by (simp add: exampleEnv_def)
  from setup_fail_fast[OF 1 2 3 4 5 6] show ?thesis
    by (auto simp: ingested_def completionBuffer_def fiveFiles_def exampleInvocation_def
        fileBuffers_def exampleEnv_def newInstance_def upt_rec numeral_2_eq_2)
qed

text \<open>
  Without these conditions \<^verbatim>\<open>setup\<close> does not come to the file that cannot be read:
  with an SDK path and no Clang importer linked in it returns the error of line 55, whose
  diagnostic names no path; with a module name that is not an identifier it stops at the
  assertion of line 76, with no diagnostic at all. (And with a completion buffer that
  is a pointer to no buffer, where the behaviour of the source is undefined, the model
  stops before the files.)
\<close>

theorem setup_fail_fast_counterexample:
  "getFileOrSTDIN exampleEnv ''missing.swift'' = Inl ''No such file or directory'' \<and>
   getInputFilenames sdkMissing = [''missing.swift''] \<and>
   returned (setup_instance exampleEnv sdkMissing (newInstance [] :: nat compiler_instance)) \<and>
   Diagnostics (state_of (setup_instance exampleEnv sdkMissing
      (newInstance [] :: nat compiler_instance))) = [error_clang_importer_not_linked_in] \<and>
   getInputFilenames badNameMissing = [''missing.swift''] \<and>
   aborted (setup_instance exampleEnv badNameMissing (newInstance [] :: nat compiler_instance)) \<and>
   Diagnostics (state_of (setup_instance exampleEnv badNameMissing
      (newInstance [] :: nat compiler_instance))) = [] \<and>
   getInputFilenames danglingCompletion = [''missing.swift''] \<and>
   aborted (setup_instance exampleEnv danglingCompletion (newInstance [] :: nat compiler_instance)) \<and>
   Diagnostics (state_of (setup_instance exampleEnv danglingCompletion
      (newInstance [] :: nat compiler_instance))) = []"
  by code_simp



section \<open>What \<^verbatim>\<open>doIt\<close> guarantees\<close>




text \<open>
  C2. For the input kind \<open>Library\<close> and a run of \<^verbatim>\<open>doIt\<close> that returns, with \<open>n\<close>
  registered buffers: the first \<open>n\<close> calls are calls of the parser, on the registered
  buffers in their order of registration, and each of them ended with the parser done;
  the declarations of the one source file are the batches of these calls, one after the
  other; after them comes the checking, one call over the whole file, and none when
  parse-only is set (then the delayed parsing, if there are delayed-parsing callbacks).
  So checking is invoked exactly once, after all buffers are parsed, or not at all.
\<close>
theorem library_parses_then_checks_once:
  assumes "getInputKind (Invocation s) = Library"
    and "doIt P fuel s = Returned () s'"
    and "cs = newCalls s s'" and "n = length (BufferIDs s)"
    and "K = length (declsOf (length (SourceFiles (Context s))) s')"
  shows "list_all isParseCall (take n cs) \<and> parsedBuffers (take n cs) = BufferIDs s \<and>
     parsedDone (take n cs) = replicate n True \<and>
     declsOf (length (SourceFiles (Context s))) s' = concat (parsedBatches (take n cs)) \<and>
     drop n cs =
       (if getParseOnly (Invocation s) then [] else [TypeCheckCall 0 K]) @
       (if chooseDelayedCB s \<noteq> None then [DelayedParsingCall] else []) \<and>
     typeChecks cs = (if getParseOnly (Invocation s) then [] else [(0, K)])"
proof -
  let ?tail = "(if getParseOnly (Invocation s) then [] else [TypeCheckCall 0 K]) @
       (if chooseDelayedCB s \<noteq> None then [DelayedParsingCall] else [])"
  from doIt_Library_Returned[OF assms(1,2)] obtain cs0 where
    r: "newCalls s s' = cs0 @ ?tail"
       "declsOf (length (SourceFiles (Context s))) s' = concat (parsedBatches cs0)"
       "length cs0 = length (BufferIDs s)" "length (parsedBuffers cs0) = length cs0"
       "parsedBuffers cs0 = BufferIDs s"
       "parsedDone cs0 = replicate (length (BufferIDs s)) True" "typeChecks cs0 = []"
    unfolding assms(5) by blast
  have t: "take n cs = cs0" "drop n cs = ?tail"
    unfolding assms(3) r(1) using r(3) assms(4) by simp_all
  have tc: "typeChecks cs = (if getParseOnly (Invocation s) then [] else [(0, K)])"
    unfolding assms(3) r(1) by (simp add: typeChecks_append r(7))
  have 1: "list_all isParseCall (take n cs)" unfolding t by (rule parsedBuffers_all[OF r(4)])
  have 2: "parsedBuffers (take n cs) = BufferIDs s" unfolding t by (rule r(5))
  have 3: "parsedDone (take n cs) = replicate n True" using r(6) t(1) assms(4) by simp
  have 4: "declsOf (length (SourceFiles (Context s))) s' = concat (parsedBatches (take n cs))"
    unfolding t by (rule r(2))
  from 1 2 3 4 t(2) tc show ?thesis by blast
qed

theorem library_parses_then_checks_once_witness:
  "returned libraryRun \<and>
   parsedBuffers (take 3 (newCalls libraryInstance (state_of libraryRun))) = [0, 1, 2] \<and>
   declsOf 0 (state_of libraryRun) = [0, 10, 20] \<and>
   drop 3 (newCalls libraryInstance (state_of libraryRun)) = [TypeCheckCall 0 3] \<and>
   typeChecks (newCalls libraryInstance (state_of libraryRun)) = [(0, 3)]"
proof -
  have r: "returned libraryRun" by code_simp
  have 1: "getInputKind (Invocation libraryInstance) = Library" by code_simp
  have 2: "doIt (wholeBufferParser (\<lambda>b. [10 * b])) 0 libraryInstance = Returned () (state_of libraryRun)"
    using returned_unit[OF r] by (simp add: libraryRun_def)
  have 4: "3 = length (BufferIDs libraryInstance)" by code_simp
  have 5: "3 = length (declsOf (length (SourceFiles (Context libraryInstance))) (state_of libraryRun))"
    by code_simp
  have f: "BufferIDs libraryInstance = [0, 1, 2]" "\<not> getParseOnly (Invocation libraryInstance)"
    "chooseDelayedCB libraryInstance = None" by code_simp+
  have d: "declsOf 0 (state_of libraryRun) = [0, 10, 20]" by code_simp
  note c = library_parses_then_checks_once[OF 1 2 refl 4 5]
  from c f have a: "parsedBuffers (take 3 (newCalls libraryInstance (state_of libraryRun))) = [0, 1, 2]"
    by simp
  from c f have b: "drop 3 (newCalls libraryInstance (state_of libraryRun)) = [TypeCheckCall 0 3]"
    by simp
  from c f have e: "typeChecks (newCalls libraryInstance (state_of libraryRun)) = [(0, 3)]"
    by simp
  from r a d b e show ?thesis by blast
qed

text \<open>
  C3. With parse-only set, a run of \<^verbatim>\<open>doIt\<close> makes no call of \<^verbatim>\<open>performTypeChecking\<close>:
  for every input kind, every parser (so every number of declarations), every amount of
  fuel and however the run ends, also when it is cut off in the middle of the pump loop.
\<close>
theorem parse_only_never_checks:
  assumes "getParseOnly (Invocation s)"
  shows "typeChecks (newCalls s (state_of (doIt P fuel s))) = []"
proof -
  from doIt_any[of P fuel s] assms obtain cs where
    "Calls (state_of (doIt P fuel s)) = Calls s @ cs" "typeChecks cs = []" by blast
  then show ?thesis by (simp add: newCalls_def)
qed

theorem parse_only_never_checks_witness:
  "getParseOnly (Invocation parseOnlyInstance) \<and> returned parseOnlyRun \<and>
   parsedBatches (newCalls parseOnlyInstance (state_of parseOnlyRun)) = [[1, 2], [3]] \<and>
   typeChecks (newCalls parseOnlyInstance (state_of parseOnlyRun)) = []"
proof -
  have 1: "getParseOnly (Invocation parseOnlyInstance)" by code_simp
  have 2: "returned parseOnlyRun" by code_simp
  have 3: "parsedBatches (newCalls parseOnlyInstance (state_of parseOnlyRun)) = [[1, 2], [3]]"
    by code_simp
  from parse_only_never_checks[OF 1, of "scriptParser [[1, 2], [3]]" 5] 1 2 3
  show ?thesis by (simp add: parseOnlyRun_def)
qed

text \<open>
  C9. \<^verbatim>\<open>doIt\<close> registers its new translation unit under the configured module name
  whatever was registered before: however the run ends, the registry is the old one
  with the entry of that name replaced by the translation unit just allocated (which is
  the instance's \<^verbatim>\<open>TU\<close>, named by the module name, holding the one new source file),
  and the entries of other names are as they were.
\<close>
theorem doIt_registers_module:
  "LoadedModules (Context (state_of (doIt P fuel s))) =
     (LoadedModules (Context s))
       (getModuleName (Invocation s) \<mapsto> length (TranslationUnits (Context s))) \<and>
   TU (state_of (doIt P fuel s)) = Some (length (TranslationUnits (Context s))) \<and>
   TranslationUnits (Context (state_of (doIt P fuel s))) =
     TranslationUnits (Context s) @
       [\<lparr>Name = getModuleName (Invocation s), Files = [length (SourceFiles (Context s))]\<rparr>]"
proof -
  from doIt_any[of P fuel s] have "stepFrame (snd (createTU s)) (state_of (doIt P fuel s))"
    by blast
  then show ?thesis by (simp add: stepFrame_def createTU_facts)
qed

theorem doIt_registers_module_witness:
  "LoadedModules (Context reusedInstance) ''main'' = Some 0 \<and>
   LoadedModules (Context (state_of (doIt (scriptParser [[1, 2], [3]]) 5 reusedInstance))) ''main''
     = Some 1 \<and>
   TU (state_of (doIt (scriptParser [[1, 2], [3]]) 5 reusedInstance)) = Some 1"
proof -
  have 1: "LoadedModules (Context reusedInstance) ''main'' = Some 0"
    by (simp add: reusedInstance_def)
  have 2: "getModuleName (Invocation reusedInstance) = ''main''"
    "length (TranslationUnits (Context reusedInstance)) = 1"
    by (simp_all add: reusedInstance_def mainInstance_def newInstance_def exampleInvocation_def)
  from doIt_registers_module[of "scriptParser [[1, 2], [3]]" 5 reusedInstance] 1
  show ?thesis unfolding 2 by simp
qed

section \<open>Contract violations and the order of registration\<close>

lemma setup_bad_name:
  assumes "loadersReady E Invok" and "\<not> isIdentifier E (getModuleName Invok)"
  shows "\<exists>s'. setup_instance E Invok s =
       Aborted (AssertionFailed ''Lexer::isIdentifier(Invocation.getModuleName())'') s' \<and>
     ingested s s' []"
proof -
  from assms(1) wireClangImporter_ready[of E "setupContext Invok s"]
  obtain x where w: "wireClangImporter E (setupContext Invok s) = Inr x"
    by (auto simp: setupContext_fields)
  note f = wireClangImporter_Inr[OF w, unfolded setupContext_fields]
  have "setup_instance E Invok s =
     Aborted (AssertionFailed ''Lexer::isIdentifier(Invocation.getModuleName())'')
       (addRuntimeIncludePath x)"
    using w assms(2) f by (simp add: setup_instance_def Let_def addRuntimeIncludePath_def)
  moreover have "ingested s (addRuntimeIncludePath x) []"
    using f by (simp add: ingested_def addRuntimeIncludePath_def)
  ultimately show ?thesis by blast
qed

text \<open>
  C7, as amended. A module name that is not an identifier makes \<^verbatim>\<open>setup\<close> stop at the
  failed assertion of line 76, with no buffer ingested, whenever \<^verbatim>\<open>setup\<close> gets as far
  as that line: when the loaders do not end it before (no SDK path, or the Clang importer
  is constructed). And for the input kinds \<open>Main\<close> and \<open>SIL\<close>, a number of registered
  buffers other than one makes \<^verbatim>\<open>doIt\<close> stop at the failed assertion of line 165,
  before any call of the parser or the type checker.
\<close>
theorem contract_violations_abort:
  "(loadersReady E Invok \<and> \<not> isIdentifier E (getModuleName Invok) \<longrightarrow>
      (\<exists>s'. setup_instance E Invok s =
          Aborted (AssertionFailed ''Lexer::isIdentifier(Invocation.getModuleName())'') s' \<and>
        ingested s s' [])) \<and>
   ((getInputKind (Invocation t) = Main \<or> getInputKind (Invocation t) = SIL) \<and>
    length (BufferIDs t) \<noteq> 1 \<longrightarrow>
      (\<exists>t'. doIt P fuel t = Aborted (AssertionFailed ''This mode only allows one input'') t' \<and>
        newCalls t t' = []))"
proof (intro conjI impI)
  assume "loadersReady E Invok \<and> \<not> isIdentifier E (getModuleName Invok)"
  then show "\<exists>s'. setup_instance E Invok s =
          Aborted (AssertionFailed ''Lexer::isIdentifier(Invocation.getModuleName())'') s' \<and>
        ingested s s' []"
    using setup_bad_name by blast
next
  assume a: "(getInputKind (Invocation t) = Main \<or> getInputKind (Invocation t) = SIL) \<and>
    length (BufferIDs t) \<noteq> 1"
  then have "doIt P fuel t =
      Aborted (AssertionFailed ''This mode only allows one input'') (snd (createTU t))"
    using doIt_too_many by blast
  moreover have "newCalls t (snd (createTU t)) = []"
    by (simp add: newCalls_def createTU_facts)
  ultimately show "\<exists>t'. doIt P fuel t =
      Aborted (AssertionFailed ''This mode only allows one input'') t' \<and> newCalls t t' = []"
    by blast
qed

theorem contract_violations_abort_witness:
  "\<not> isIdentifier exampleEnv (getModuleName badName) \<and>
   aborted (setup_instance exampleEnv badName (newInstance [] :: nat compiler_instance)) \<and>
   BufferIDs (state_of (setup_instance exampleEnv badName (newInstance [] :: nat compiler_instance))) = [] \<and>
   length (BufferIDs twoInputs) = 2 \<and>
   aborted (doIt (scriptParser [[1, 2], [3]]) 5 twoInputs) \<and>
   newCalls twoInputs (state_of (doIt (scriptParser [[1, 2], [3]]) 5 twoInputs)) = []"
proof -
  let ?s = "newInstance [] :: nat compiler_instance"
  have 1: "loadersReady exampleEnv badName \<and> \<not> isIdentifier exampleEnv (getModuleName badName)"
    by (simp add: loadersReady_def badName_def exampleInvocation_def exampleEnv_def)
  have 2: "(getInputKind (Invocation twoInputs) = Main \<or> getInputKind (Invocation twoInputs) = SIL) \<and>
    length (BufferIDs twoInputs) \<noteq> 1"
    by (simp add: twoInputs_def mainInstance_def newInstance_def exampleInvocation_def)
  note c = contract_violations_abort[of exampleEnv badName ?s twoInputs "scriptParser [[1, 2], [3]]" 5]
  from c 1 obtain s' where
    a: "setup_instance exampleEnv badName ?s =
          Aborted (AssertionFailed ''Lexer::isIdentifier(Invocation.getModuleName())'') s'"
       "ingested ?s s' []" by blast
  from c 2 obtain t' where
    b: "doIt (scriptParser [[1, 2], [3]]) 5 twoInputs =
          Aborted (AssertionFailed ''This mode only allows one input'') t'"
       "newCalls twoInputs t' = []" by blast
  have l: "length (BufferIDs twoInputs) = 2" by (simp add: twoInputs_def)
  from a(2) have "BufferIDs s' = []" by (simp add: ingested_def newInstance_def)
  with 1 a b l show ?thesis by simp
qed

text \<open>
  Without that condition the assertion is not reached: with an SDK path and no Clang
  importer linked in, \<^verbatim>\<open>setup\<close> returns its error at line 55, also for a module name
  that is not an identifier.
\<close>

theorem contract_violations_counterexample:
  "\<not> isIdentifier exampleEnv (getModuleName sdkInvocation) \<and>
   returned (setup_instance exampleEnv sdkInvocation (newInstance twoBuffers :: nat compiler_instance)) \<and>
   \<not> aborted (setup_instance exampleEnv sdkInvocation (newInstance twoBuffers :: nat compiler_instance))"
  by (simp add: setup_instance_def setupContext_def wireClangImporter_def addModuleLoader_def
      diagnose_def Let_def sdkInvocation_def exampleInvocation_def exampleEnv_def)





end
